theory Spec2Isabelle
  imports Complex_Main
begin

section \<open>Scope\<close>

text \<open>
  The repository holds three notebooks on the cart with a pendulum.  The first derives
  the equations of motion from the Lagrangian, simulates the free system, linearises it
  about the upright position, computes an LQR gain and simulates the controlled system.
  The second does the same from the Hamiltonian, with momenta in place of velocities.
  Both are modelled here.  The third repeats the derivation and the free simulation of
  the first with the angle measured from the \<open>+y\<close> axis and has no control part; it is
  not modelled.  The plotting and animation code has no part in any of the properties.

  Numbers.  The formulas are sympy expressions and are exact.  The numeric functions
  that \<^verbatim>\<open>sp.lambdify\<close> makes of them compute in \<^verbatim>\<open>float64\<close>; the model evaluates them
  over the reals, at the real numbers that the \<^verbatim>\<open>float64\<close> arguments stand for, and leaves
  out the rounding of each operation and of the sine and cosine.  Two places where
  rounding decides what the program does are modelled in \<^verbatim>\<open>float64\<close>: the time grid
  (\<open>arange\<close>), whose number of samples comes from a rounded quotient, and the angle of
  the upright position, which is the number \<open>np_pi\<close> when the program builds a state and
  not pi.  The LQR routine of the \<^verbatim>\<open>control\<close> package and the integrator of scipy are
  library code outside the repository; they enter through what they are documented to
  return.
\<close>

section \<open>Symbolic expressions\<close>

text \<open>
  The notebooks build every formula with sympy and turn it into a numeric function
  only at the end (\<^verbatim>\<open>sp.lambdify\<close>).  The expressions are the data of the
  program, so they are modelled as a datatype.  The symbols are the ones the notebooks
  declare: the time-dependent states \<^verbatim>\<open>x1(t)\<close>, \<^verbatim>\<open>x2(t)\<close>, their first and second
  time derivatives, the conjugate momenta \<^verbatim>\<open>p1(t)\<close>, \<^verbatim>\<open>p2(t)\<close>, the plain symbols
  \<^verbatim>\<open>y1, y2, y1d, y2d\<close>, the time \<^verbatim>\<open>t\<close>, the control \<^verbatim>\<open>u\<close> and the parameters
  \<^verbatim>\<open>m1, m2, l, g\<close>.  Numbers are exact (sympy works symbolically, and \<^verbatim>\<open>sp.pi\<close> is
  the number pi), so the expressions are evaluated over the reals.
\<close>

datatype sym =
  Sx1 | Sx1d | Sx1dd | Sx2 | Sx2d | Sx2dd | Sp1 | Sp2
  | Sy1 | Sy1d | Sy2 | Sy2d | St | Su | Sm1 | Sm2 | Sl | Sg

datatype expr =
  Num real
  | Sym sym
  | Add expr expr
  | Sub expr expr
  | Neg expr
  | Mul expr expr
  | Div expr expr
  | Pwr expr nat
  | Sin expr
  | Cos expr

type_synonym env = "sym \<Rightarrow> real"

fun eval :: "expr \<Rightarrow> env \<Rightarrow> real" where
  "eval (Num c) env = c"
| "eval (Sym v) env = env v"
| "eval (Add a b) env = eval a env + eval b env"
| "eval (Sub a b) env = eval a env - eval b env"
| "eval (Neg a) env = - eval a env"
| "eval (Mul a b) env = eval a env * eval b env"
| "eval (Div a b) env = eval a env / eval b env"
| "eval (Pwr a n) env = eval a env ^ n"
| "eval (Sin a) env = sin (eval a env)"
| "eval (Cos a) env = cos (eval a env)"

text \<open>
  An expression has a value at an environment when no denominator vanishes there.
  (HOL's division is total, \<open>x / 0 = 0\<close>; numpy returns \<^verbatim>\<open>inf\<close> or \<^verbatim>\<open>nan\<close>.  Every
  statement below that depends on a quotient carries the hypothesis that the
  denominators are not zero, directly or through \<open>defined\<close>.)
\<close>

fun defined :: "expr \<Rightarrow> env \<Rightarrow> bool" where
  "defined (Num c) env = True"
| "defined (Sym v) env = True"
| "defined (Add a b) env = (defined a env \<and> defined b env)"
| "defined (Sub a b) env = (defined a env \<and> defined b env)"
| "defined (Neg a) env = defined a env"
| "defined (Mul a b) env = (defined a env \<and> defined b env)"
| "defined (Div a b) env = (defined a env \<and> defined b env \<and> eval b env \<noteq> 0)"
| "defined (Pwr a n) env = defined a env"
| "defined (Sin a) env = defined a env"
| "defined (Cos a) env = defined a env"

fun syms :: "expr \<Rightarrow> sym set" where
  "syms (Num c) = {}"
| "syms (Sym v) = {v}"
| "syms (Add a b) = syms a \<union> syms b"
| "syms (Sub a b) = syms a \<union> syms b"
| "syms (Neg a) = syms a"
| "syms (Mul a b) = syms a \<union> syms b"
| "syms (Div a b) = syms a \<union> syms b"
| "syms (Pwr a n) = syms a"
| "syms (Sin a) = syms a"
| "syms (Cos a) = syms a"

text \<open>
  Differentiation.  \<open>dd \<delta> e\<close> differentiates \<open>e\<close> by the sum, product, quotient, power
  and chain rules, with \<open>\<delta> v\<close> the derivative of the symbol \<open>v\<close>.  \<^verbatim>\<open>sp.diff(f, x)\<close>
  is the case where \<open>x\<close> has derivative 1 and every other symbol 0 (sympy treats
  \<^verbatim>\<open>x1(t)\<close> and \<^verbatim>\<open>Derivative(x1(t), t)\<close> as independent when it differentiates by
  one of them); \<^verbatim>\<open>sp.diff(f, t)\<close> is the case where each state has its time derivative
  as derivative.  The notebooks apply the time derivative only to expressions in the
  positions and velocities, which is what \<open>time_rate\<close> covers.
\<close>

fun dd :: "(sym \<Rightarrow> expr) \<Rightarrow> expr \<Rightarrow> expr" where
  "dd \<delta> (Num c) = Num 0"
| "dd \<delta> (Sym v) = \<delta> v"
| "dd \<delta> (Add a b) = Add (dd \<delta> a) (dd \<delta> b)"
| "dd \<delta> (Sub a b) = Sub (dd \<delta> a) (dd \<delta> b)"
| "dd \<delta> (Neg a) = Neg (dd \<delta> a)"
| "dd \<delta> (Mul a b) = Add (Mul (dd \<delta> a) b) (Mul a (dd \<delta> b))"
| "dd \<delta> (Div a b) = Div (Sub (Mul (dd \<delta> a) b) (Mul a (dd \<delta> b))) (Pwr b 2)"
| "dd \<delta> (Pwr a n) = Mul (Mul (Num (real n)) (Pwr a (n - 1))) (dd \<delta> a)"
| "dd \<delta> (Sin a) = Mul (Cos a) (dd \<delta> a)"
| "dd \<delta> (Cos a) = Mul (Neg (Sin a)) (dd \<delta> a)"

definition ddx :: "expr \<Rightarrow> sym \<Rightarrow> expr" where
  "ddx f x = dd (\<lambda>v. if v = x then Num 1 else Num 0) f"

fun time_rate :: "sym \<Rightarrow> expr" where
  "time_rate Sx1 = Sym Sx1d"
| "time_rate Sx1d = Sym Sx1dd"
| "time_rate Sx2 = Sym Sx2d"
| "time_rate Sx2d = Sym Sx2dd"
| "time_rate St = Num 1"
| "time_rate v = Num 0"

definition ddt :: "expr \<Rightarrow> expr" where
  "ddt f = dd time_rate f"

text \<open>
  \<^verbatim>\<open>e.subs(d)\<close> with a dictionary \<open>d\<close>, kept as an association list in the order the
  source writes it.  In every dictionary of the notebooks the replacements contain none
  of the replaced symbols, so that replacing all of them at once is what sympy does.
\<close>

fun subs :: "(sym \<times> expr) list \<Rightarrow> expr \<Rightarrow> expr" where
  "subs d (Num c) = Num c"
| "subs d (Sym v) = (case map_of d v of None \<Rightarrow> Sym v | Some r \<Rightarrow> r)"
| "subs d (Add a b) = Add (subs d a) (subs d b)"
| "subs d (Sub a b) = Sub (subs d a) (subs d b)"
| "subs d (Neg a) = Neg (subs d a)"
| "subs d (Mul a b) = Mul (subs d a) (subs d b)"
| "subs d (Div a b) = Div (subs d a) (subs d b)"
| "subs d (Pwr a n) = Pwr (subs d a) n"
| "subs d (Sin a) = Sin (subs d a)"
| "subs d (Cos a) = Cos (subs d a)"

text \<open>The environment in which a substituted expression is evaluated.\<close>

definition subs_env :: "(sym \<times> expr) list \<Rightarrow> env \<Rightarrow> env" where
  "subs_env d env = (\<lambda>v. case map_of d v of None \<Rightarrow> env v | Some r \<Rightarrow> eval r env)"

text \<open>
  \<^verbatim>\<open>sp.lambdify(args, e)\<close>: the function that binds its positional arguments to the
  symbols \<open>args\<close> and evaluates \<open>e\<close>.  A symbol of \<open>e\<close> that is not among \<open>args\<close> would be
  a \<^verbatim>\<open>NameError\<close> at the call; \<open>bind\<close> gives it the value 0, and the lemmas
  \<open>syms_y1dd\<close>, \<open>syms_y2dd\<close> and \<open>syms_DE_eqs\<close> show that no lambdified expression of
  the notebooks has such a symbol.
\<close>

definition bind :: "sym list \<Rightarrow> real list \<Rightarrow> env" where
  "bind args vals = (\<lambda>v. case map_of (zip args vals) v of None \<Rightarrow> 0 | Some r \<Rightarrow> r)"

definition lambdify :: "sym list \<Rightarrow> expr \<Rightarrow> real list \<Rightarrow> real" where
  "lambdify args e vals = eval e (bind args vals)"

section \<open>Kinematics and energies (both notebooks)\<close>

text \<open>
  \<open>x1\<close> is the position of the cart and \<open>x2\<close> the angle of the pendulum measured from
  the \<open>-y\<close> axis.  The Lagrangian and the Hamiltonian notebook set up the same positions,
  velocities and energies.
\<close>

definition x1d :: expr where "x1d = ddt (Sym Sx1)"
definition x2d :: expr where "x2d = ddt (Sym Sx2)"
definition x1dd :: expr where "x1dd = ddt x1d"
definition x2dd :: expr where "x2dd = ddt x2d"

definition cart_x :: expr where "cart_x = Sym Sx1"
definition cart_y :: expr where "cart_y = Num 0"
definition cart_pos :: "expr list" where "cart_pos = [cart_x, cart_y]"

definition pendulum_x :: expr where
  "pendulum_x = Add (Mul (Sym Sl) (Sin (Sym Sx2))) (Sym Sx1)"
definition pendulum_y :: expr where
  "pendulum_y = Mul (Neg (Sym Sl)) (Cos (Sym Sx2))"
definition pendulum_pos :: "expr list" where "pendulum_pos = [pendulum_x, pendulum_y]"

definition cart_vel :: "expr list" where "cart_vel = map ddt cart_pos"
definition pendulum_vel :: "expr list" where "pendulum_vel = map ddt pendulum_pos"

text \<open>Python's \<^verbatim>\<open>sum\<close> starts from 0 and adds from the left.\<close>

definition py_sum :: "expr list \<Rightarrow> expr" where
  "py_sum es = foldl Add (Num 0) es"

definition cart_v_squared :: expr where
  "cart_v_squared = py_sum (map (\<lambda>i. Pwr i 2) cart_vel)"
definition pendulum_v_squared :: expr where
  "pendulum_v_squared = py_sum (map (\<lambda>i. Pwr i 2) pendulum_vel)"

definition pe :: expr where
  "pe = Mul (Mul (Neg (Sym Sm2)) (Sym Sg)) pendulum_y"

definition ke :: expr where
  "ke = Add (Div (Mul (Sym Sm1) cart_v_squared) (Num 2))
            (Div (Mul (Sym Sm2) pendulum_v_squared) (Num 2))"

definition L :: expr where
  "L = Sub ke pe"

section \<open>The Lagrangian notebook\<close>

subsection \<open>Equations of motion\<close>

definition DEs :: "expr list" where
  "DEs = [Sub (Sub (ddt (ddx L Sx1d)) (ddx L Sx1)) (Sym Su),
          Sub (ddt (ddx L Sx2d)) (ddx L Sx2)]"

text \<open>
  \<^verbatim>\<open>sp.solve(DEs, [x1dd, x2dd])\<close> solves the two equations \<open>DEs = 0\<close>, which are linear
  in the accelerations, and \<^verbatim>\<open>simplify\<close> rewrites the solution without changing its
  value.  The model gives the solution in closed form; \<open>DEexplicit_solves\<close> and
  \<open>DEexplicit_unique\<close> below show that it is the solution of \<open>DEs\<close>, and the only one.
\<close>

definition x1dd_val :: expr where
  "x1dd_val =
     Div (Sub (Add (Sym Su)
                   (Mul (Mul (Mul (Sym Sm2) (Sym Sl)) (Sin (Sym Sx2))) (Pwr (Sym Sx2d) 2)))
              (Mul (Mul (Mul (Sym Sm2) (Sym Sg)) (Sin (Sym Sx2))) (Cos (Sym Sx2))))
         (Add (Sym Sm1) (Mul (Sym Sm2) (Pwr (Sin (Sym Sx2)) 2)))"

definition x2dd_val :: expr where
  "x2dd_val =
     Div (Sub (Sub (Mul (Mul (Add (Sym Sm1) (Sym Sm2)) (Sym Sg)) (Sin (Sym Sx2)))
                   (Mul (Sym Su) (Cos (Sym Sx2))))
              (Mul (Mul (Mul (Mul (Sym Sm2) (Sym Sl)) (Sin (Sym Sx2))) (Cos (Sym Sx2)))
                   (Pwr (Sym Sx2d) 2)))
         (Mul (Sym Sl) (Add (Sym Sm1) (Mul (Sym Sm2) (Pwr (Sin (Sym Sx2)) 2))))"

definition DEexplicit :: "expr list" where
  "DEexplicit = [x1dd_val, x2dd_val]"

subsection \<open>Expressions to functions\<close>

definition substitutions :: "(sym \<times> expr) list" where
  "substitutions = [(Sx1, Sym Sy1), (Sx2, Sym Sy2), (Sx1d, Sym Sy1d), (Sx2d, Sym Sy2d)]"

definition y1dd :: expr where "y1dd = subs substitutions (DEexplicit ! 0)"
definition y2dd :: expr where "y2dd = subs substitutions (DEexplicit ! 1)"

definition y1dd_function ::
  "real \<Rightarrow> real \<Rightarrow> real \<Rightarrow> real \<Rightarrow> real \<Rightarrow> real \<Rightarrow> real \<Rightarrow> real \<Rightarrow> real \<Rightarrow> real \<Rightarrow> real" where
  "y1dd_function y1 y1d y2 y2d t u m1 m2 l g =
     lambdify [Sy1, Sy1d, Sy2, Sy2d, St, Su, Sm1, Sm2, Sl, Sg] y1dd
       [y1, y1d, y2, y2d, t, u, m1, m2, l, g]"

definition y2dd_function ::
  "real \<Rightarrow> real \<Rightarrow> real \<Rightarrow> real \<Rightarrow> real \<Rightarrow> real \<Rightarrow> real \<Rightarrow> real \<Rightarrow> real \<Rightarrow> real \<Rightarrow> real" where
  "y2dd_function y1 y1d y2 y2d t u m1 m2 l g =
     lambdify [Sy1, Sy1d, Sy2, Sy2d, St, Su, Sm1, Sm2, Sl, Sg] y2dd
       [y1, y1d, y2, y2d, t, u, m1, m2, l, g]"

subsection \<open>The dynamics function\<close>

text \<open>
  A state is a numpy array, here a list.  The control law \<open>uf\<close> is called first, on
  the state as it was passed; an exception it raises leaves the function.  Unpacking
  \<^verbatim>\<open>x1, v1, x2, v2 = X_\<close> raises \<^verbatim>\<open>ValueError\<close> unless the state has four components.
\<close>

datatype error = ValueError | IndexError | ZeroDivisionError

definition get_PendulumCartRates ::
  "real list \<Rightarrow> real \<Rightarrow> (real list \<Rightarrow> error + real) \<Rightarrow> real \<Rightarrow> real \<Rightarrow> real \<Rightarrow> real
     \<Rightarrow> error + real list" where
  "get_PendulumCartRates X t uf m1 m2 l g =
     (case uf X of
        Inl e \<Rightarrow> Inl e
      | Inr u \<Rightarrow>
          (case X of
             [x1, v1, x2, v2] \<Rightarrow>
               (let x1d = v1;
                    v1d = y1dd_function x1 v1 x2 v2 t u m1 m2 l g;
                    x2d = v2;
                    v2d = y2dd_function x1 v1 x2 v2 t u m1 m2 l g
                in Inr [x1d, v1d, x2d, v2d])
           | _ \<Rightarrow> Inl ValueError))"

text \<open>No control law, free moving: \<^verbatim>\<open>control_no = lambda x:0\<close>.\<close>

definition control_no :: "real list \<Rightarrow> error + real" where
  "control_no x = Inr 0"

text \<open>
  \<^verbatim>\<open>np.pi\<close>, the \<^verbatim>\<open>float64\<close> nearest to pi: this is the number the program has for the
  angle of the upright position when it builds a state.  It is a little less than pi
  (\<open>np_pi_less_pi\<close>).
\<close>

definition np_pi :: real where
  "np_pi = 884279719003555 / 281474976710656"

subsection \<open>Linearizing the system\<close>

text \<open>
  \<^verbatim>\<open>Xs = [x1(t), x1d, x2(t), x2d]\<close> are the symbols the rates are differentiated by, and
  \<^verbatim>\<open>Xds\<close> the four rate expressions.  The stationary point fixes the angle and the two
  velocities; the position \<open>x1\<close> and the control \<open>u\<close> are left symbolic by the source.
\<close>

definition x1d_val :: expr where "x1d_val = x1d"
definition x2d_val :: expr where "x2d_val = x2d"

definition Xs :: "sym list" where
  "Xs = [Sx1, Sx1d, Sx2, Sx2d]"

definition Xds :: "expr list" where
  "Xds = [x1d_val, x1dd_val, x2d_val, x2dd_val]"

definition subs_stationary :: "(sym \<times> expr) list" where
  "subs_stationary = [(Sx2, Num pi), (Sx2d, Num 0), (Sx1d, Num 0)]"

definition A_sp :: "expr list list" where
  "A_sp = map (\<lambda>xd. map (\<lambda>x. subs subs_stationary (ddx xd x)) Xs) Xds"

definition B_sp :: "expr list list" where
  "B_sp = map (\<lambda>xd. [subs subs_stationary (ddx xd Su)]) Xds"

text \<open>
  The numerical matrices handed to the LQR routine.  sympy's \<^verbatim>\<open>simplify\<close> has removed
  the symbols whose coefficient vanishes at the stationary point; the model keeps them
  in the expression, so the entries are evaluated in an environment, on which they do
  not depend (\<open>A_np_value\<close>, \<open>B_np_value\<close>).
\<close>

definition param_subs :: "(sym \<times> expr) list" where
  "param_subs = [(Sm1, Num 1), (Sm2, Num 1), (Sg, Num (- 10)), (Sl, Num 1)]"

definition A_np :: "env \<Rightarrow> real list list" where
  "A_np env = map (map (\<lambda>e. eval (subs param_subs e) env)) A_sp"

definition B_np :: "env \<Rightarrow> real list list" where
  "B_np env = map (map (\<lambda>e. eval (subs param_subs e) env)) B_sp"

subsection \<open>The feedback law\<close>

text \<open>
  numpy's arithmetic on one-dimensional arrays and the product of a matrix (a list of
  rows) with a vector.  Shapes that do not fit raise \<^verbatim>\<open>ValueError\<close>; a one-element
  array is broadcast.  Indexing an empty array raises \<^verbatim>\<open>IndexError\<close>.
\<close>

definition vsub :: "real list \<Rightarrow> real list \<Rightarrow> error + real list" where
  "vsub xs ys =
     (if length xs = length ys then Inr (map2 (-) xs ys)
      else if length xs = 1 then Inr (map (\<lambda>y. hd xs - y) ys)
      else if length ys = 1 then Inr (map (\<lambda>x. x - hd ys) xs)
      else Inl ValueError)"

definition dot :: "real list \<Rightarrow> real list \<Rightarrow> real" where
  "dot xs ys = sum_list (map2 (*) xs ys)"

definition matvec :: "real list list \<Rightarrow> real list \<Rightarrow> error + real list" where
  "matvec M v =
     (if list_all (\<lambda>row. length row = length v) M then Inr (map (\<lambda>row. dot row v) M)
      else Inl ValueError)"

definition xsp :: "real list" where
  "xsp = [0, 0, pi, 0]"

text \<open>
  \<^verbatim>\<open>control_law = lambda x: -(K_np @(x-xsp))[0]\<close>.  The gain \<open>K_np\<close> is what the LQR
  routine of the \<^verbatim>\<open>control\<close> package returned; it is a parameter here.
\<close>

definition control_law :: "real list list \<Rightarrow> real list \<Rightarrow> error + real" where
  "control_law K_np x =
     (case vsub x xsp of
        Inl e \<Rightarrow> Inl e
      | Inr d \<Rightarrow>
          (case matvec K_np d of
             Inl e \<Rightarrow> Inl e
           | Inr r \<Rightarrow> (case r of [] \<Rightarrow> Inl IndexError | r0 # _ \<Rightarrow> Inr (- r0))))"

subsection \<open>Simulation\<close>

text \<open>
  The time grid is computed by numpy in \<^verbatim>\<open>float64\<close>, and the number of its samples
  depends on how the quotient is rounded; so this part of the program is modelled with
  the arithmetic of IEEE 754 binary64, which is what Python and numpy compute with.
  A \<^verbatim>\<open>float64\<close> value is a real number (the finite values) or one of the non-finite
  values; the two zeros are not told apart.
\<close>

datatype float64 = Finite real | PosInf | NegInf | NaN

fun isfinite :: "float64 \<Rightarrow> bool" where
  "isfinite (Finite r) = True"
| "isfinite PosInf = False"
| "isfinite NegInf = False"
| "isfinite NaN = False"

text \<open>
  Rounding to the nearest integer, a tie going to the even one; the binary exponent of
  a number, not below that of the subnormal values and found by search so that it can
  be computed; the distance between neighbouring \<^verbatim>\<open>float64\<close> values at a number (53
  significant bits); and the \<^verbatim>\<open>float64\<close> nearest to a real number, which is an
  infinity from the magnitude \<open>2 ^ 1024\<close> on.
\<close>

definition rne :: "real \<Rightarrow> int" where
  "rne x =
     (let n = \<lfloor>x\<rfloor>; d = x - of_int n
      in if d < 1 / 2 then n else if 1 / 2 < d then n + 1 else if even n then n else n + 1)"

definition exponent :: "real \<Rightarrow> int" where
  "exponent x =
     (case find (\<lambda>e. 2 powi e \<le> \<bar>x\<bar>) (rev [- 1022..1023]) of
        Some e \<Rightarrow> e
      | None \<Rightarrow> - 1022)"

definition ulp :: "real \<Rightarrow> real" where
  "ulp x = 2 powi (exponent x - 52)"

definition round_f64 :: "real \<Rightarrow> float64" where
  "round_f64 x =
     (let y = of_int (rne (x / ulp x)) * ulp x
      in if 2 ^ 1024 \<le> y then PosInf else if y \<le> - (2 ^ 1024) then NegInf else Finite y)"

text \<open>
  Sum, difference and product of two \<^verbatim>\<open>float64\<close> values: the exact result, rounded.
\<close>

fun fneg :: "float64 \<Rightarrow> float64" where
  "fneg (Finite a) = Finite (- a)"
| "fneg PosInf = NegInf"
| "fneg NegInf = PosInf"
| "fneg NaN = NaN"

definition fadd :: "float64 \<Rightarrow> float64 \<Rightarrow> float64" where
  "fadd x y =
     (case x of
        Finite a \<Rightarrow> (case y of Finite b \<Rightarrow> round_f64 (a + b) | _ \<Rightarrow> y)
      | NaN \<Rightarrow> NaN
      | _ \<Rightarrow> (case y of Finite b \<Rightarrow> x | _ \<Rightarrow> if x = y then x else NaN))"

definition fsub :: "float64 \<Rightarrow> float64 \<Rightarrow> float64" where
  "fsub x y = fadd x (fneg y)"

definition fmul :: "float64 \<Rightarrow> float64 \<Rightarrow> float64" where
  "fmul x y =
     (case x of
        Finite a \<Rightarrow>
          (case y of
             Finite b \<Rightarrow> round_f64 (a * b)
           | NaN \<Rightarrow> NaN
           | _ \<Rightarrow> if a = 0 then NaN else if 0 < a then y else fneg y)
      | NaN \<Rightarrow> NaN
      | _ \<Rightarrow>
          (case y of
             Finite b \<Rightarrow> if b = 0 then NaN else if 0 < b then x else fneg x
           | NaN \<Rightarrow> NaN
           | _ \<Rightarrow> if x = y then PosInf else NegInf))"

text \<open>
  \<^verbatim>\<open>np.arange(start, stop, step)\<close> with \<^verbatim>\<open>float\<close> arguments, as numpy computes it.  The
  length is the ceiling of the quotient \<^verbatim>\<open>(stop - start) / step\<close>, both operations
  rounded (a quotient that is rounded to zero without being zero counts as one sample
  when it is positive); a zero step raises \<^verbatim>\<open>ZeroDivisionError\<close> in that division,
  and a length that is not finite or does not fit a machine integer raises
  \<^verbatim>\<open>ValueError\<close>.  The first two entries are \<^verbatim>\<open>start\<close> and \<^verbatim>\<open>start + step\<close>; numpy's
  fill routine takes their difference \<^verbatim>\<open>delta\<close> and sets the entry \<open>i\<close> to
  \<^verbatim>\<open>start + i*delta\<close>, each operation rounded.  The memory that the array needs is not
  modelled.
\<close>

definition arange_fill :: "float64 \<Rightarrow> float64 \<Rightarrow> nat \<Rightarrow> float64 list" where
  "arange_fill start next len =
     (let delta = fsub next start
      in take len
           (start # next # map (\<lambda>i. fadd start (fmul (Finite (real i)) delta)) [2..<len]))"

definition arange :: "real \<Rightarrow> real \<Rightarrow> real \<Rightarrow> error + float64 list" where
  "arange start stop step =
     (if step = 0 then Inl ZeroDivisionError
      else
        (case round_f64 (stop - start) of
           Finite delta \<Rightarrow>
             (case round_f64 (delta / step) of
                Finite q \<Rightarrow>
                  (let len = (if q = 0 \<and> delta \<noteq> 0
                              then (if delta / step < 0 then 0 else 1) else \<lceil>q\<rceil>)
                   in if len < - (2 ^ 63) \<or> 2 ^ 63 \<le> len then Inl ValueError
                      else Inr (arange_fill (Finite start) (round_f64 (start + step)) (nat len)))
              | _ \<Rightarrow> Inl ValueError)
         | _ \<Rightarrow> Inl ValueError))"

text \<open>
  The integrator is \<^verbatim>\<open>scipy.integrate.odeint\<close>, a library routine that is given the
  rate function, the initial state and the sample times, and returns one sample for each
  time.  It is a parameter of the model.  The simulation cells hand its result on
  without looking into the samples, so their type \<open>'s\<close> is left open.
\<close>

type_synonym 's integrator =
  "(real list \<Rightarrow> real \<Rightarrow> error + real list) \<Rightarrow> real list \<Rightarrow> float64 list \<Rightarrow> error + 's list"

text \<open>
  The two simulation cells differ in the control law and the initial state only;
  \<open>run_odeint\<close> is their common shape, with the time grid built as the cells do.
\<close>

definition run_odeint ::
  "'s integrator \<Rightarrow> (real list \<Rightarrow> error + real) \<Rightarrow> real list \<Rightarrow> real \<Rightarrow> real \<Rightarrow> real
     \<Rightarrow> real \<Rightarrow> real \<Rightarrow> real \<Rightarrow> real \<Rightarrow> error + (float64 list \<times> 's list)" where
  "run_odeint odeint uf x0 t0 tn dt m1 m2 l g =
     (case arange t0 tn dt of
        Inl e \<Rightarrow> Inl e
      | Inr ts \<Rightarrow>
          (case odeint (\<lambda>X t. get_PendulumCartRates X t uf m1 m2 l g) x0 ts of
             Inl e \<Rightarrow> Inl e
           | Inr res \<Rightarrow> Inr (ts, res)))"

text \<open>
  The two runs of the notebook.  The step \<^verbatim>\<open>dt = 0.001\<close> is the \<^verbatim>\<open>float64\<close> that the
  literal denotes.
\<close>

definition f64 :: "real \<Rightarrow> real" where
  "f64 x = (case round_f64 x of Finite y \<Rightarrow> y | _ \<Rightarrow> x)"

definition result :: "'s integrator \<Rightarrow> error + (float64 list \<times> 's list)" where
  "result odeint =
     run_odeint odeint control_no [0, 0, pi / 2, 0] 0 10 (f64 (1 / 1000)) 1 1 1 (- 10)"

definition res_ctrl :: "'s integrator \<Rightarrow> real list list \<Rightarrow> error + (float64 list \<times> 's list)" where
  "res_ctrl odeint K_np =
     run_odeint odeint (control_law K_np) [0, 0, pi - 8 / 10, 0] 0 10 (f64 (1 / 1000))
       1 1 1 (- 10)"

section \<open>The Hamiltonian notebook\<close>

subsection \<open>Momenta, velocities and the Hamiltonian\<close>

definition v1 :: expr where "v1 = ddt (Sym Sx1)"
definition v2 :: expr where "v2 = ddt (Sym Sx2)"

definition conjugate_momentum_eqs :: "expr list" where
  "conjugate_momentum_eqs = [Sub (Sym Sp1) (ddx L Sx1d), Sub (Sym Sp2) (ddx L Sx2d)]"

text \<open>
  \<^verbatim>\<open>sp.solve(conjugate_momentum_eqs, [v1, v2])\<close>: the velocities as functions of the
  momenta, in closed form; \<open>vels_sol_solves\<close> and \<open>vels_sol_unique\<close> show that they are
  the solution of the two equations, and the only one.
\<close>

definition vels_sol :: "(sym \<times> expr) list" where
  "vels_sol =
     [(Sx1d, Div (Sub (Mul (Sym Sl) (Sym Sp1)) (Mul (Cos (Sym Sx2)) (Sym Sp2)))
                 (Mul (Sym Sl) (Add (Sym Sm1) (Mul (Sym Sm2) (Pwr (Sin (Sym Sx2)) 2))))),
      (Sx2d, Div (Sub (Mul (Add (Sym Sm1) (Sym Sm2)) (Sym Sp2))
                      (Mul (Mul (Mul (Sym Sm2) (Sym Sl)) (Cos (Sym Sx2))) (Sym Sp1)))
                 (Mul (Mul (Sym Sm2) (Pwr (Sym Sl) 2))
                      (Add (Sym Sm1) (Mul (Sym Sm2) (Pwr (Sin (Sym Sx2)) 2)))))]"

definition H :: expr where
  "H = subs vels_sol (Sub (Add (Mul (Sym Sp1) v1) (Mul (Sym Sp2) v2)) L)"

subsection \<open>Hamilton's equations\<close>

definition x1d_exp :: expr where "x1d_exp = ddx H Sp1"
definition p1d_exp :: expr where "p1d_exp = Sub (Neg (ddx H Sx1)) (Sym Su)"
definition x2d_exp :: expr where "x2d_exp = ddx H Sp2"
definition p2d_exp :: expr where "p2d_exp = Neg (ddx H Sx2)"

definition to_eq :: "expr \<Rightarrow> real list \<Rightarrow> real" where
  "to_eq eq = lambdify [Sx1, Sp1, Sx2, Sp2, St, Su, Sm1, Sm2, Sl, Sg] eq"

definition DE_eqs :: "expr list" where
  "DE_eqs = [x1d_exp, p1d_exp, x2d_exp, p2d_exp]"

definition DE_funcs :: "(real list \<Rightarrow> real) list" where
  "DE_funcs = map to_eq DE_eqs"

definition get_PendulumCartRates_Hamiltonian ::
  "real list \<Rightarrow> real \<Rightarrow> (real list \<Rightarrow> error + real) \<Rightarrow> real \<Rightarrow> real \<Rightarrow> real \<Rightarrow> real
     \<Rightarrow> error + real list" where
  "get_PendulumCartRates_Hamiltonian X t uf m1 m2 l g =
     (case uf X of
        Inl e \<Rightarrow> Inl e
      | Inr u \<Rightarrow>
          (case X of
             [x1, p1, x2, p2] \<Rightarrow>
               Inr (map (\<lambda>f. f [x1, p1, x2, p2, t, u, m1, m2, l, g]) DE_funcs)
           | _ \<Rightarrow> Inl ValueError))"

subsection \<open>The linearised model\<close>

definition Xs_H :: "sym list" where
  "Xs_H = [Sx1, Sp1, Sx2, Sp2]"

definition Xds_H :: "expr list" where
  "Xds_H = [x1d_exp, p1d_exp, x2d_exp, p2d_exp]"

definition subs_stationary_H :: "(sym \<times> expr) list" where
  "subs_stationary_H = [(Sx2, Num pi), (Sp1, Num 0), (Sp2, Num 0)]"

definition A_sp_H :: "expr list list" where
  "A_sp_H = map (\<lambda>xd. map (\<lambda>x. subs subs_stationary_H (ddx xd x)) Xs_H) Xds_H"


section \<open>Notions used to state the properties\<close>

text \<open>A control law that returns the same force \<open>u\<close> at every state (\<open>control_no\<close> is the case 0).\<close>

definition control_const :: "real \<Rightarrow> real list \<Rightarrow> error + real" where
  "control_const u x = Inr u"

text \<open>
  The values of the symbols along a trajectory: positions \<open>q1\<close>, \<open>q2\<close>, velocities
  \<open>w1\<close>, \<open>w2\<close> as functions of time, with the accelerations \<open>a1\<close>, \<open>a2\<close> at the
  instant considered.
\<close>

definition along ::
  "env \<Rightarrow> (real \<Rightarrow> real) \<Rightarrow> (real \<Rightarrow> real) \<Rightarrow> real \<Rightarrow> (real \<Rightarrow> real) \<Rightarrow> (real \<Rightarrow> real) \<Rightarrow> real
     \<Rightarrow> real \<Rightarrow> env" where
  "along env q1 w1 a1 q2 w2 a2 s =
     env(Sx1 := q1 s, Sx1d := w1 s, Sx1dd := a1, Sx2 := q2 s, Sx2d := w2 s, Sx2dd := a2, St := s)"

text \<open>
  A trajectory \<open>X\<close> follows the rate function \<open>f\<close> at time \<open>t\<close>: the rate function
  returns a vector there, and every component of the trajectory has the corresponding
  component of that vector as its time derivative.
\<close>

definition ode_solution ::
  "(real list \<Rightarrow> real \<Rightarrow> error + real list) \<Rightarrow> (real \<Rightarrow> real list) \<Rightarrow> real \<Rightarrow> bool" where
  "ode_solution f X t =
     (case f (X t) t of
        Inl e \<Rightarrow> False
      | Inr r \<Rightarrow>
          length r = length (X t) \<and>
          (\<forall>i<length r. ((\<lambda>s. X s ! i) has_real_derivative r ! i) (at t)))"

text \<open>
  The map from the velocity state \<open>(x1, v1, x2, v2)\<close> of the Lagrangian notebook to the
  momentum state \<open>(x1, p1, x2, p2)\<close> of the Hamiltonian notebook: the momenta are the
  ones \<open>conjugate_momentum_eqs\<close> defines, \<open>p\<^sub>i = \<partial>L/\<partial>v\<^sub>i\<close>.
\<close>

definition to_momentum :: "real \<Rightarrow> real \<Rightarrow> real \<Rightarrow> real list \<Rightarrow> real list" where
  "to_momentum m1 m2 l X =
     (case X of
        [x1, w1, x2, w2] \<Rightarrow>
          (let env = bind [Sx1, Sx1d, Sx2, Sx2d, Sm1, Sm2, Sl] [x1, w1, x2, w2, m1, m2, l]
           in [x1, eval (ddx L Sx1d) env, x2, eval (ddx L Sx2d) env])
      | _ \<Rightarrow> X)"

text \<open>
  The rate of the momentum state when the velocity state \<open>X\<close> changes at the rate \<open>r\<close>
  (the chain rule applied to \<open>to_momentum\<close>).
\<close>

definition state_rate :: "real list \<Rightarrow> sym \<Rightarrow> expr" where
  "state_rate r v =
     (if v = Sx1 then Num (r ! 0) else if v = Sx1d then Num (r ! 1)
      else if v = Sx2 then Num (r ! 2) else if v = Sx2d then Num (r ! 3) else Num 0)"

definition momentum_rates :: "real \<Rightarrow> real \<Rightarrow> real \<Rightarrow> real list \<Rightarrow> real list \<Rightarrow> real list" where
  "momentum_rates m1 m2 l X r =
     (case X of
        [x1, w1, x2, w2] \<Rightarrow>
          (let env = bind [Sx1, Sx1d, Sx2, Sx2d, Sm1, Sm2, Sl] [x1, w1, x2, w2, m1, m2, l]
           in [r ! 0, eval (dd (state_rate r) (ddx L Sx1d)) env,
               r ! 2, eval (dd (state_rate r) (ddx L Sx2d)) env])
      | _ \<Rightarrow> r)"

text \<open>
  Zero-order hold as the specification describes it: the control law is called once, on
  the state \<open>X_step\<close> at the start of an integration step, and the rates at a stage
  state \<open>X_stage\<close> of that step are computed with that value of the control.
\<close>

definition zero_order_hold_rates ::
  "real list \<Rightarrow> real list \<Rightarrow> real \<Rightarrow> (real list \<Rightarrow> error + real) \<Rightarrow> real \<Rightarrow> real \<Rightarrow> real \<Rightarrow> real
     \<Rightarrow> error + real list" where
  "zero_order_hold_rates X_step X_stage t uf m1 m2 l g =
     (case uf X_step of
        Inl e \<Rightarrow> Inl e
      | Inr u \<Rightarrow> get_PendulumCartRates X_stage t (control_const u) m1 m2 l g)"

section \<open>Properties of the symbolic operations\<close>

lemma eval_subs: "eval (subs d e) env = eval e (subs_env d env)"
  by (induction e) (auto simp: subs_env_def split: option.splits)


lemma dd_correct:
  assumes "\<And>v. ((\<lambda>s. E s v) has_real_derivative eval (\<delta> v) (E t)) (at t)"
    and "defined e (E t)"
  shows "((\<lambda>s. eval e (E s)) has_real_derivative eval (dd \<delta> e) (E t)) (at t)"
  using assms(2)
proof (induction e)
  case (Sym v)
  then show ?case using assms(1) by simp
next
  case (Div a b)
  then show ?case by (auto intro!: derivative_eq_intros simp: power2_eq_square)
next
  case (Pwr a n)
  then show ?case by (auto intro!: derivative_eq_intros)
qed (auto intro!: derivative_eq_intros)

lemma ddx_correct:
  assumes "defined e env"
  shows "((\<lambda>s. eval e (env(x := s))) has_real_derivative eval (ddx e x) env) (at (env x))"
proof -
  have "((\<lambda>s. eval e ((\<lambda>s. env(x := s)) s)) has_real_derivative
         eval (dd (\<lambda>v. if v = x then Num 1 else Num 0) e) ((\<lambda>s. env(x := s)) (env x))) (at (env x))"
    by (rule dd_correct) (use assms in auto)
  then show ?thesis by (simp add: ddx_def)
qed

lemma ddt_correct:
  assumes "(q1 has_real_derivative w1 t) (at t)" "(w1 has_real_derivative a1) (at t)"
    and "(q2 has_real_derivative w2 t) (at t)" "(w2 has_real_derivative a2) (at t)"
    and "defined e (along env q1 w1 a1 q2 w2 a2 t)"
  shows "((\<lambda>s. eval e (along env q1 w1 a1 q2 w2 a2 s)) has_real_derivative
           eval (ddt e) (along env q1 w1 a1 q2 w2 a2 t)) (at t)"
proof -
  have "((\<lambda>s. along env q1 w1 a1 q2 w2 a2 s v) has_real_derivative
          eval (time_rate v) (along env q1 w1 a1 q2 w2 a2 t)) (at t)" for v
    using assms(1-4) by (cases v) (simp_all add: along_def)
  from dd_correct[where E = "along env q1 w1 a1 q2 w2 a2" and \<delta> = time_rate, OF this assms(5)]
  show ?thesis by (simp add: ddt_def)
qed

lemma defined_dd:
  assumes "defined e env" and "\<And>v. defined (\<delta> v) env"
  shows "defined (dd \<delta> e) env"
  using assms by (induction e) auto

lemma defined_ddx: "defined e env \<Longrightarrow> defined (ddx e x) env"
  by (simp add: ddx_def defined_dd)

lemma syms_dd: "syms (dd \<delta> e) \<subseteq> syms e \<union> (\<Union>v\<in>syms e. syms (\<delta> v))"
  by (induction e) auto

lemma syms_ddx: "syms (ddx e x) \<subseteq> syms e"
  using syms_dd[of "\<lambda>v. if v = x then Num 1 else Num 0" e] by (auto simp: ddx_def split: if_splits)


lemma eval_dd_zero:
  assumes "\<And>v. v \<in> syms e \<Longrightarrow> eval (\<delta> v) env = 0"
  shows "eval (dd \<delta> e) env = 0"
  using assms by (induction e) auto

lemma eval_ddx_absent: "x \<notin> syms e \<Longrightarrow> eval (ddx e x) env = 0"
  unfolding ddx_def by (rule eval_dd_zero) auto

lemma ddx_simps:
  "ddx (Sub a b) x = Sub (ddx a x) (ddx b x)"
  "ddx (Neg a) x = Neg (ddx a x)"
  "ddx (Sym v) x = (if v = x then Num 1 else Num 0)"
  by (simp_all add: ddx_def)

lemma second_derivative_value:
  assumes "defined e env"
    and "\<And>s. eval (ddx e a) (env(b := s)) = F s"
    and "(F has_real_derivative d) (at (env b))"
  shows "eval (ddx (ddx e a) b) env = d"
proof -
  have "((\<lambda>s. eval (ddx e a) (env(b := s))) has_real_derivative eval (ddx (ddx e a) b) env)
          (at (env b))"
    by (rule ddx_correct[OF defined_ddx[OF assms(1)]])
  then have "(F has_real_derivative eval (ddx (ddx e a) b) env) (at (env b))"
    unfolding assms(2) .
  then show ?thesis using assms(3) by (rule DERIV_unique)
qed

section \<open>Properties of the derivation\<close>

lemmas kin_defs = x1d_def x2d_def x1dd_def x2dd_def cart_x_def cart_y_def cart_pos_def
  pendulum_x_def pendulum_y_def pendulum_pos_def cart_vel_def pendulum_vel_def py_sum_def
  cart_v_squared_def pendulum_v_squared_def pe_def ke_def L_def ddt_def ddx_def

lemma sin_sq_cos: "sin x * sin x = 1 - cos x * cos (x::real)"
  using sin_cos_squared_add3[of x] by (simp add: algebra_simps)

lemma velocity_symbols: "x1d = Sym Sx1d" "x2d = Sym Sx2d" "x1dd = Sym Sx1dd" "x2dd = Sym Sx2dd"
  "v1 = Sym Sx1d" "v2 = Sym Sx2d"
  by (simp_all add: kin_defs v1_def v2_def)

lemma eval_L: "eval L env =
   env Sm1 * (env Sx1d)\<^sup>2 / 2
   + env Sm2 * ((env Sl * cos (env Sx2) * env Sx2d + env Sx1d)\<^sup>2
                + (env Sl * sin (env Sx2) * env Sx2d)\<^sup>2) / 2
   - env Sm2 * env Sg * env Sl * cos (env Sx2)"
  by (simp add: kin_defs mult.assoc)

lemma defined_L: "defined L env"
  by (simp add: kin_defs)

lemma eval_dL_dx1d: "eval (ddx L Sx1d) env =
   (env Sm1 + env Sm2) * env Sx1d + env Sm2 * env Sl * cos (env Sx2) * env Sx2d"
  by (simp add: kin_defs) (simp add: field_simps)

lemma eval_dL_dx2d: "eval (ddx L Sx2d) env =
   env Sm2 * env Sl * cos (env Sx2) * env Sx1d + env Sm2 * (env Sl)\<^sup>2 * env Sx2d"
  by (simp add: kin_defs) (simp add: field_simps power2_eq_square sin_sq_cos)

lemma eval_dL_dx1: "eval (ddx L Sx1) env = 0"
  by (simp add: kin_defs)

lemma eval_dL_dx2: "eval (ddx L Sx2) env =
   - env Sm2 * env Sl * sin (env Sx2) * env Sx1d * env Sx2d
   + env Sm2 * env Sg * env Sl * sin (env Sx2)"
  by (simp add: kin_defs) (simp add: field_simps power2_eq_square)

lemma eval_DE1: "eval (DEs ! 0) env =
   (env Sm1 + env Sm2) * env Sx1dd + env Sm2 * env Sl * cos (env Sx2) * env Sx2dd
    - env Sm2 * env Sl * sin (env Sx2) * (env Sx2d)\<^sup>2 - env Su"
  by (simp add: kin_defs DEs_def) (simp add: field_simps power2_eq_square)

lemma eval_DE2: "eval (DEs ! 1) env =
   env Sm2 * env Sl * cos (env Sx2) * env Sx1dd + env Sm2 * (env Sl)\<^sup>2 * env Sx2dd
     - env Sm2 * env Sg * env Sl * sin (env Sx2)"
  by (simp add: kin_defs DEs_def) (simp add: field_simps power2_eq_square sin_sq_cos)

lemma eval_x1dd_val: "eval x1dd_val env =
   (env Su + env Sm2 * env Sl * sin (env Sx2) * (env Sx2d)\<^sup>2
      - env Sm2 * env Sg * sin (env Sx2) * cos (env Sx2))
   / (env Sm1 + env Sm2 * (sin (env Sx2))\<^sup>2)"
  by (simp add: x1dd_val_def)

lemma eval_x2dd_val: "eval x2dd_val env =
   ((env Sm1 + env Sm2) * env Sg * sin (env Sx2) - env Su * cos (env Sx2)
      - env Sm2 * env Sl * sin (env Sx2) * cos (env Sx2) * (env Sx2d)\<^sup>2)
   / (env Sl * (env Sm1 + env Sm2 * (sin (env Sx2))\<^sup>2))"
  by (simp add: x2dd_val_def)



text \<open>The algebra behind \<^verbatim>\<open>sp.solve(DEs, [x1dd, x2dd])\<close>, over the reals.\<close>

lemma accelerations_solve:
  fixes s c m1 m2 l g u w :: real
  assumes sc: "s\<^sup>2 + c\<^sup>2 = 1" and D: "m1 + m2 * s\<^sup>2 \<noteq> 0" and l: "l \<noteq> 0"
  defines "a1 \<equiv> (u + m2 * l * s * w\<^sup>2 - m2 * g * s * c) / (m1 + m2 * s\<^sup>2)"
    and "a2 \<equiv> ((m1 + m2) * g * s - u * c - m2 * l * s * c * w\<^sup>2) / (l * (m1 + m2 * s\<^sup>2))"
  shows "(m1 + m2) * a1 + m2 * l * c * a2 - m2 * l * s * w\<^sup>2 - u = 0"
    and "m2 * l * c * a1 + m2 * l\<^sup>2 * a2 - m2 * g * l * s = 0"
proof -
  define D where "D = m1 + m2 * s\<^sup>2"
  define N1 where "N1 = u + m2 * l * s * w\<^sup>2 - m2 * g * s * c"
  define N2 where "N2 = (m1 + m2) * g * s - u * c - m2 * l * s * c * w\<^sup>2"
  have D0: "D \<noteq> 0" using D by (simp add: D_def)
  have a1: "a1 = N1 / D" and a2: "a2 = N2 / (l * D)"
    by (simp_all add: a1_def a2_def D_def N1_def N2_def)
  have "(m1 + m2) * a1 + m2 * l * c * a2 - m2 * l * s * w\<^sup>2 - u =
     ((m1 + m2) * N1 + m2 * c * N2 - (m2 * l * s * w\<^sup>2 + u) * D) / D"
    using D0 l unfolding a1 a2 by (simp add: field_simps)
  also have "(m1 + m2) * N1 + m2 * c * N2 - (m2 * l * s * w\<^sup>2 + u) * D
      = (m2 * u + m2 * m2 * l * s * w\<^sup>2) * (1 - (s\<^sup>2 + c\<^sup>2))"
    unfolding N1_def N2_def D_def by (simp add: algebra_simps power2_eq_square)
  finally show "(m1 + m2) * a1 + m2 * l * c * a2 - m2 * l * s * w\<^sup>2 - u = 0"
    unfolding sc by simp
  have "m2 * l * c * a1 + m2 * l\<^sup>2 * a2 - m2 * g * l * s =
     (m2 * l * c * N1 + m2 * l * N2 - m2 * g * l * s * D) / D"
    using D0 l unfolding a1 a2 by (simp add: field_simps power2_eq_square)
  also have "m2 * l * c * N1 + m2 * l * N2 - m2 * g * l * s * D
      = m2 * m2 * l * g * s * (1 - (s\<^sup>2 + c\<^sup>2))"
    unfolding N1_def N2_def D_def by (simp add: algebra_simps power2_eq_square)
  finally show "m2 * l * c * a1 + m2 * l\<^sup>2 * a2 - m2 * g * l * s = 0"
    unfolding sc by simp
qed

lemma accelerations_unique:
  fixes s c m1 m2 l g u w a1 a2 :: real
  assumes sc: "s\<^sup>2 + c\<^sup>2 = 1" and D: "m1 + m2 * s\<^sup>2 \<noteq> 0" and l: "l \<noteq> 0" and m2: "m2 \<noteq> 0"
    and e1: "(m1 + m2) * a1 + m2 * l * c * a2 - m2 * l * s * w\<^sup>2 - u = 0"
    and e2: "m2 * l * c * a1 + m2 * l\<^sup>2 * a2 - m2 * g * l * s = 0"
  shows "a1 = (u + m2 * l * s * w\<^sup>2 - m2 * g * s * c) / (m1 + m2 * s\<^sup>2)"
    and "a2 = ((m1 + m2) * g * s - u * c - m2 * l * s * c * w\<^sup>2) / (l * (m1 + m2 * s\<^sup>2))"
proof -
  define D where "D = m1 + m2 * s\<^sup>2"
  define N1 where "N1 = u + m2 * l * s * w\<^sup>2 - m2 * g * s * c"
  define N2 where "N2 = (m1 + m2) * g * s - u * c - m2 * l * s * c * w\<^sup>2"
  have D0: "D \<noteq> 0" using D by (simp add: D_def)
  have "m2 * l * (c * a1 + l * a2 - g * s) = 0"
    using e2 by (simp add: algebra_simps power2_eq_square)
  then have la2: "l * a2 = g * s - c * a1" using m2 l by simp
  have "(m1 + m2) * a1 + m2 * c * (l * a2) - m2 * l * s * w\<^sup>2 - u = 0"
    using e1 by (simp add: algebra_simps)
  then have "(m1 + m2 * (1 - c\<^sup>2)) * a1 = N1"
    unfolding la2 N1_def by (simp add: algebra_simps power2_eq_square)
  moreover have "1 - c\<^sup>2 = s\<^sup>2" using sc by simp
  ultimately have DA: "D * a1 = N1" by (simp add: D_def)
  then have A1: "a1 = N1 / D" using D0 by (simp add: field_simps)
  then show "a1 = (u + m2 * l * s * w\<^sup>2 - m2 * g * s * c) / (m1 + m2 * s\<^sup>2)"
    by (simp add: N1_def D_def)
  have "D * (l * a2) = D * (g * s) - c * (D * a1)"
    unfolding la2 by (simp add: algebra_simps)
  also have "\<dots> = N2 - m2 * g * s * (1 - (s\<^sup>2 + c\<^sup>2))"
    unfolding DA unfolding N1_def N2_def D_def by (simp add: algebra_simps power2_eq_square)
  finally have "D * (l * a2) = N2" unfolding sc by simp
  then have "a2 = N2 / (l * D)" using D0 l by (simp add: field_simps)
  then show "a2 = ((m1 + m2) * g * s - u * c - m2 * l * s * c * w\<^sup>2) / (l * (m1 + m2 * s\<^sup>2))"
    by (simp add: N2_def D_def)
qed

lemma eval_DEs: "map (\<lambda>e. eval e env) DEs =
   [(env Sm1 + env Sm2) * env Sx1dd + env Sm2 * env Sl * cos (env Sx2) * env Sx2dd
      - env Sm2 * env Sl * sin (env Sx2) * (env Sx2d)\<^sup>2 - env Su,
    env Sm2 * env Sl * cos (env Sx2) * env Sx1dd + env Sm2 * (env Sl)\<^sup>2 * env Sx2dd
      - env Sm2 * env Sg * env Sl * sin (env Sx2)]"
  using eval_DE1[of env] eval_DE2[of env] by (simp add: DEs_def)

lemma eval_DEexplicit: "map (\<lambda>e. eval e env) DEexplicit =
   [(env Su + env Sm2 * env Sl * sin (env Sx2) * (env Sx2d)\<^sup>2
       - env Sm2 * env Sg * sin (env Sx2) * cos (env Sx2))
     / (env Sm1 + env Sm2 * (sin (env Sx2))\<^sup>2),
    ((env Sm1 + env Sm2) * env Sg * sin (env Sx2) - env Su * cos (env Sx2)
       - env Sm2 * env Sl * sin (env Sx2) * cos (env Sx2) * (env Sx2d)\<^sup>2)
     / (env Sl * (env Sm1 + env Sm2 * (sin (env Sx2))\<^sup>2))]"
  by (simp add: DEexplicit_def eval_x1dd_val eval_x2dd_val)

lemma DEexplicit_solves:
  assumes "env Sm1 + env Sm2 * (sin (env Sx2))\<^sup>2 \<noteq> 0" and "env Sl \<noteq> 0"
    and "[a1, a2] = map (\<lambda>e. eval e env) DEexplicit"
  shows "map (\<lambda>e. eval e (env(Sx1dd := a1, Sx2dd := a2))) DEs = [0, 0]"
proof -
  have a: "a1 = (env Su + env Sm2 * env Sl * sin (env Sx2) * (env Sx2d)\<^sup>2
       - env Sm2 * env Sg * sin (env Sx2) * cos (env Sx2))
     / (env Sm1 + env Sm2 * (sin (env Sx2))\<^sup>2)"
    "a2 = ((env Sm1 + env Sm2) * env Sg * sin (env Sx2) - env Su * cos (env Sx2)
       - env Sm2 * env Sl * sin (env Sx2) * cos (env Sx2) * (env Sx2d)\<^sup>2)
     / (env Sl * (env Sm1 + env Sm2 * (sin (env Sx2))\<^sup>2))"
    using assms(3) unfolding eval_DEexplicit by simp_all
  show ?thesis
    unfolding eval_DEs a
    using accelerations_solve[OF sin_cos_squared_add assms(1,2), of "env Su" "env Sx2d" "env Sg"]
    by simp
qed

lemma DEexplicit_unique:
  assumes "env Sm1 + env Sm2 * (sin (env Sx2))\<^sup>2 \<noteq> 0" and "env Sl \<noteq> 0" and "env Sm2 \<noteq> 0"
    and "map (\<lambda>e. eval e env) DEs = [0, 0]"
  shows "[env Sx1dd, env Sx2dd] = map (\<lambda>e. eval e env) DEexplicit"
proof -
  have e: "(env Sm1 + env Sm2) * env Sx1dd + env Sm2 * env Sl * cos (env Sx2) * env Sx2dd
      - env Sm2 * env Sl * sin (env Sx2) * (env Sx2d)\<^sup>2 - env Su = 0"
    "env Sm2 * env Sl * cos (env Sx2) * env Sx1dd + env Sm2 * (env Sl)\<^sup>2 * env Sx2dd
      - env Sm2 * env Sg * env Sl * sin (env Sx2) = 0"
    using assms(4) unfolding eval_DEs by simp_all
  show ?thesis
    unfolding eval_DEexplicit
    using accelerations_unique[OF sin_cos_squared_add assms(1-3) e] by simp
qed

subsection \<open>The lambdified accelerations and the dynamics function\<close>

lemma syms_y1dd: "syms y1dd \<subseteq> set [Sy1, Sy1d, Sy2, Sy2d, St, Su, Sm1, Sm2, Sl, Sg]"
  by (simp add: y1dd_def DEexplicit_def x1dd_val_def substitutions_def)

lemma syms_y2dd: "syms y2dd \<subseteq> set [Sy1, Sy1d, Sy2, Sy2d, St, Su, Sm1, Sm2, Sl, Sg]"
  by (simp add: y2dd_def DEexplicit_def x2dd_val_def substitutions_def)

lemma y1dd_function_closed:
  "y1dd_function y1 y1d y2 y2d t u m1 m2 l g =
     (u + m2 * l * sin y2 * y2d\<^sup>2 - m2 * g * sin y2 * cos y2) / (m1 + m2 * (sin y2)\<^sup>2)"
  by (simp add: y1dd_function_def lambdify_def bind_def y1dd_def DEexplicit_def x1dd_val_def
      substitutions_def)

lemma y2dd_function_closed:
  "y2dd_function y1 y1d y2 y2d t u m1 m2 l g =
     ((m1 + m2) * g * sin y2 - u * cos y2 - m2 * l * sin y2 * cos y2 * y2d\<^sup>2)
       / (l * (m1 + m2 * (sin y2)\<^sup>2))"
  by (simp add: y2dd_function_def lambdify_def bind_def y2dd_def DEexplicit_def x2dd_val_def
      substitutions_def)

lemma get_PendulumCartRates_closed:
  "get_PendulumCartRates [x1, w1, x2, w2] t (control_const u) m1 m2 l g =
     Inr [w1,
          (u + m2 * l * sin x2 * w2\<^sup>2 - m2 * g * sin x2 * cos x2) / (m1 + m2 * (sin x2)\<^sup>2),
          w2,
          ((m1 + m2) * g * sin x2 - u * cos x2 - m2 * l * sin x2 * cos x2 * w2\<^sup>2)
            / (l * (m1 + m2 * (sin x2)\<^sup>2))]"
  by (simp add: get_PendulumCartRates_def control_const_def y1dd_function_closed
      y2dd_function_closed)

lemma control_no_const: "control_no = control_const 0"
  by (simp add: fun_eq_iff control_no_def control_const_def)

lemma get_PendulumCartRates_shape:
  "get_PendulumCartRates X t uf m1 m2 l g = Inr r \<Longrightarrow> length X = 4 \<and> length r = 4"
  by (auto simp: get_PendulumCartRates_def split: sum.splits list.splits)


subsection \<open>The linearised model\<close>






lemma A_sp_value:
  "map (map (\<lambda>e. eval e env)) A_sp =
     [[0, 1, 0, 0],
      [0, 0, - env Sm2 * env Sg * env Sm1 / (env Sm1)\<^sup>2, 0],
      [0, 0, 0, 1],
      [0, 0, - ((env Sm1 + env Sm2) * env Sg * (env Sl * env Sm1) / (env Sl * env Sm1)\<^sup>2), 0]]"
  by (simp add: A_sp_def Xs_def Xds_def x1d_val_def x2d_val_def velocity_symbols
      x1dd_val_def x2dd_val_def subs_stationary_def ddx_def)

lemma B_sp_value:
  "map (map (\<lambda>e. eval e env)) B_sp =
     [[0], [env Sm1 / (env Sm1)\<^sup>2], [0], [env Sl * env Sm1 / (env Sl * env Sm1)\<^sup>2]]"
  by (simp add: B_sp_def Xds_def x1d_val_def x2d_val_def velocity_symbols
      x1dd_val_def x2dd_val_def subs_stationary_def ddx_def)

lemma A_sp_value_nonzero:
  assumes "env Sm1 \<noteq> 0" and "env Sl \<noteq> 0"
  shows "map (map (\<lambda>e. eval e env)) A_sp =
     [[0, 1, 0, 0],
      [0, 0, - env Sm2 * env Sg / env Sm1, 0],
      [0, 0, 0, 1],
      [0, 0, - ((env Sm1 + env Sm2) * env Sg / (env Sl * env Sm1)), 0]]"
  unfolding A_sp_value using assms by (simp add: power2_eq_square)

lemma B_sp_value_nonzero:
  assumes "env Sm1 \<noteq> 0" and "env Sl \<noteq> 0"
  shows "map (map (\<lambda>e. eval e env)) B_sp = [[0], [1 / env Sm1], [0], [1 / (env Sl * env Sm1)]]"
  unfolding B_sp_value using assms by (simp add: power2_eq_square)

lemma A_np_value: "A_np env = [[0, 1, 0, 0], [0, 0, 10, 0], [0, 0, 0, 1], [0, 0, 20, 0]]"
proof -
  have "A_np env = map (map (\<lambda>e. eval e (subs_env param_subs env))) A_sp"
    by (simp add: A_np_def eval_subs)
  also have "\<dots> = [[0, 1, 0, 0], [0, 0, 10, 0], [0, 0, 0, 1], [0, 0, 20, 0]]"
    unfolding A_sp_value by (simp add: subs_env_def param_subs_def)
  finally show ?thesis .
qed

lemma B_np_value: "B_np env = [[0], [1], [0], [1]]"
proof -
  have "B_np env = map (map (\<lambda>e. eval e (subs_env param_subs env))) B_sp"
    by (simp add: B_np_def eval_subs)
  also have "\<dots> = [[0], [1], [0], [1]]"
    unfolding B_sp_value by (simp add: subs_env_def param_subs_def)
  finally show ?thesis .
qed


section \<open>Properties of the Hamiltonian derivation\<close>

text \<open>The algebra behind \<^verbatim>\<open>sp.solve(conjugate_momentum_eqs, [v1, v2])\<close>, over the reals.\<close>

lemma velocities_solve:
  fixes s c m1 m2 l p1 p2 :: real
  assumes sc: "s\<^sup>2 + c\<^sup>2 = 1" and D: "m1 + m2 * s\<^sup>2 \<noteq> 0" and l: "l \<noteq> 0" and m2: "m2 \<noteq> 0"
  defines "w1 \<equiv> (l * p1 - c * p2) / (l * (m1 + m2 * s\<^sup>2))"
    and "w2 \<equiv> ((m1 + m2) * p2 - m2 * l * c * p1) / (m2 * l\<^sup>2 * (m1 + m2 * s\<^sup>2))"
  shows "(m1 + m2) * w1 + m2 * l * c * w2 = p1"
    and "m2 * l * c * w1 + m2 * l\<^sup>2 * w2 = p2"
proof -
  define D where "D = m1 + m2 * s\<^sup>2"
  have D0: "D \<noteq> 0" using D by (simp add: D_def)
  have c2: "c\<^sup>2 = 1 - s\<^sup>2" using sc by linarith
  have D1: "m1 + m2 - m2 * c\<^sup>2 = D" unfolding D_def c2 by (simp add: algebra_simps)
  have w1: "w1 = (l * p1 - c * p2) / (l * D)"
    and w2: "w2 = ((m1 + m2) * p2 - m2 * l * c * p1) / (m2 * l\<^sup>2 * D)"
    by (simp_all add: w1_def w2_def D_def)
  have "(m1 + m2) * w1 + m2 * l * c * w2 = p1 * (m1 + m2 - m2 * c\<^sup>2) / D"
    unfolding w1 w2 using D0 l m2 by (simp add: field_simps power2_eq_square)
  then show "(m1 + m2) * w1 + m2 * l * c * w2 = p1"
    unfolding D1 using D0 by simp
  have "m2 * l * c * w1 + m2 * l\<^sup>2 * w2 = p2 * (m1 + m2 - m2 * c\<^sup>2) / D"
    unfolding w1 w2 using D0 l m2 by (simp add: field_simps power2_eq_square)
  then show "m2 * l * c * w1 + m2 * l\<^sup>2 * w2 = p2"
    unfolding D1 using D0 by simp
qed

lemma momenta_products:
  fixes s c m1 m2 l w1 w2 :: real
  assumes sc: "s\<^sup>2 + c\<^sup>2 = 1"
  defines "p1 \<equiv> (m1 + m2) * w1 + m2 * l * c * w2"
    and "p2 \<equiv> m2 * l * c * w1 + m2 * l\<^sup>2 * w2"
  shows "l * p1 - c * p2 = l * (m1 + m2 * s\<^sup>2) * w1"
    and "(m1 + m2) * p2 - m2 * l * c * p1 = m2 * l\<^sup>2 * (m1 + m2 * s\<^sup>2) * w2"
proof -
  have c2: "c\<^sup>2 = 1 - s\<^sup>2" using sc by linarith
  have D1: "m1 + m2 - m2 * c\<^sup>2 = m1 + m2 * s\<^sup>2" unfolding c2 by (simp add: algebra_simps)
  have "l * p1 - c * p2 = l * (m1 + m2 - m2 * c\<^sup>2) * w1"
    by (simp add: p1_def p2_def algebra_simps power2_eq_square)
  then show "l * p1 - c * p2 = l * (m1 + m2 * s\<^sup>2) * w1" unfolding D1 .
  have "(m1 + m2) * p2 - m2 * l * c * p1 = m2 * l\<^sup>2 * (m1 + m2 - m2 * c\<^sup>2) * w2"
    by (simp add: p1_def p2_def algebra_simps power2_eq_square)
  then show "(m1 + m2) * p2 - m2 * l * c * p1 = m2 * l\<^sup>2 * (m1 + m2 * s\<^sup>2) * w2"
    unfolding D1 .
qed

lemma velocities_unique:
  fixes s c m1 m2 l w1 w2 :: real
  assumes sc: "s\<^sup>2 + c\<^sup>2 = 1" and D: "m1 + m2 * s\<^sup>2 \<noteq> 0" and l: "l \<noteq> 0" and m2: "m2 \<noteq> 0"
  defines "p1 \<equiv> (m1 + m2) * w1 + m2 * l * c * w2"
    and "p2 \<equiv> m2 * l * c * w1 + m2 * l\<^sup>2 * w2"
  shows "(l * p1 - c * p2) / (l * (m1 + m2 * s\<^sup>2)) = w1"
    and "((m1 + m2) * p2 - m2 * l * c * p1) / (m2 * l\<^sup>2 * (m1 + m2 * s\<^sup>2)) = w2"
  unfolding p1_def p2_def momenta_products[OF sc] using D l m2 by simp_all

lemma kinetic_half_pv:
  fixes s c m1 m2 l w1 w2 :: real
  assumes sc: "s\<^sup>2 + c\<^sup>2 = 1"
  shows "m1 * w1\<^sup>2 / 2 + m2 * ((l * c * w2 + w1)\<^sup>2 + (l * s * w2)\<^sup>2) / 2
       = (((m1 + m2) * w1 + m2 * l * c * w2) * w1 + (m2 * l * c * w1 + m2 * l\<^sup>2 * w2) * w2) / 2"
proof -
  have "m1 * w1\<^sup>2 / 2 + m2 * ((l * c * w2 + w1)\<^sup>2 + (l * s * w2)\<^sup>2) / 2
      = ((m1 + m2) * w1\<^sup>2 + 2 * m2 * l * c * w1 * w2 + m2 * l\<^sup>2 * w2\<^sup>2 * (s\<^sup>2 + c\<^sup>2)) / 2"
    by (simp add: algebra_simps power2_eq_square)
  also have "\<dots> = (((m1 + m2) * w1 + m2 * l * c * w2) * w1
                    + (m2 * l * c * w1 + m2 * l\<^sup>2 * w2) * w2) / 2"
    unfolding sc by (simp add: algebra_simps power2_eq_square)
  finally show ?thesis .
qed

lemma hamiltonian_closed:
  fixes s c m1 m2 l g p1 p2 :: real
  assumes sc: "s\<^sup>2 + c\<^sup>2 = 1" and D: "m1 + m2 * s\<^sup>2 \<noteq> 0" and l: "l \<noteq> 0" and m2: "m2 \<noteq> 0"
  defines "w1 \<equiv> (l * p1 - c * p2) / (l * (m1 + m2 * s\<^sup>2))"
    and "w2 \<equiv> ((m1 + m2) * p2 - m2 * l * c * p1) / (m2 * l\<^sup>2 * (m1 + m2 * s\<^sup>2))"
  shows "p1 * w1 + p2 * w2
         - (m1 * w1\<^sup>2 / 2 + m2 * ((l * c * w2 + w1)\<^sup>2 + (l * s * w2)\<^sup>2) / 2 - m2 * g * l * c)
       = (m2 * l\<^sup>2 * p1\<^sup>2 - 2 * m2 * l * c * p1 * p2 + (m1 + m2) * p2\<^sup>2)
           / (2 * m2 * l\<^sup>2 * (m1 + m2 * s\<^sup>2))
         + m2 * g * l * c"
proof -
  define D where "D = m1 + m2 * s\<^sup>2"
  have D0: "D \<noteq> 0" using D by (simp add: D_def)
  have P: "(m1 + m2) * w1 + m2 * l * c * w2 = p1" "m2 * l * c * w1 + m2 * l\<^sup>2 * w2 = p2"
    unfolding w1_def w2_def by (rule velocities_solve[OF sc D l m2])+
  have w1: "w1 = (l * p1 - c * p2) / (l * D)"
    and w2: "w2 = ((m1 + m2) * p2 - m2 * l * c * p1) / (m2 * l\<^sup>2 * D)"
    by (simp_all add: w1_def w2_def D_def)
  have "p1 * w1 + p2 * w2
         - (m1 * w1\<^sup>2 / 2 + m2 * ((l * c * w2 + w1)\<^sup>2 + (l * s * w2)\<^sup>2) / 2 - m2 * g * l * c)
      = (p1 * w1 + p2 * w2) / 2 + m2 * g * l * c"
    unfolding kinetic_half_pv[OF sc] P by simp
  also have "(p1 * w1 + p2 * w2) / 2 =
     (m2 * l\<^sup>2 * p1\<^sup>2 - 2 * m2 * l * c * p1 * p2 + (m1 + m2) * p2\<^sup>2) / (2 * m2 * l\<^sup>2 * D)"
    unfolding w1 w2 using D0 l m2 by (simp add: field_simps power2_eq_square)
  finally show ?thesis by (simp add: D_def)
qed

lemma hamiltonian_dp1:
  fixes c m1 m2 l g p1 p2 D :: real
  assumes "D \<noteq> 0" and "l \<noteq> 0" and "m2 \<noteq> 0"
  shows "((\<lambda>p. (m2 * l\<^sup>2 * p\<^sup>2 - 2 * m2 * l * c * p * p2 + (m1 + m2) * p2\<^sup>2) / (2 * m2 * l\<^sup>2 * D)
              + m2 * g * l * c) has_real_derivative (l * p1 - c * p2) / (l * D)) (at p1)"
  using assms by (auto intro!: derivative_eq_intros simp: field_simps power2_eq_square)

lemma hamiltonian_dp2:
  fixes c m1 m2 l g p1 p2 D :: real
  assumes "D \<noteq> 0" and "l \<noteq> 0" and "m2 \<noteq> 0"
  shows "((\<lambda>p. (m2 * l\<^sup>2 * p1\<^sup>2 - 2 * m2 * l * c * p1 * p + (m1 + m2) * p\<^sup>2) / (2 * m2 * l\<^sup>2 * D)
              + m2 * g * l * c) has_real_derivative
          ((m1 + m2) * p2 - m2 * l * c * p1) / (m2 * l\<^sup>2 * D)) (at p2)"
  using assms by (auto intro!: derivative_eq_intros simp: field_simps power2_eq_square)

lemma hamiltonian_dx2:
  fixes m1 m2 l g p1 p2 x :: real
  assumes D: "m1 + m2 * (sin x)\<^sup>2 \<noteq> 0" and l: "l \<noteq> 0" and m2: "m2 \<noteq> 0"
  shows "((\<lambda>y. (m2 * l\<^sup>2 * p1\<^sup>2 - 2 * m2 * l * cos y * p1 * p2 + (m1 + m2) * p2\<^sup>2)
                 / (2 * m2 * l\<^sup>2 * (m1 + m2 * (sin y)\<^sup>2))
              + m2 * g * l * cos y) has_real_derivative
          sin x * (l * p1 * p2 * (m1 + m2 * (sin x)\<^sup>2)
                   - (m2 * l\<^sup>2 * p1\<^sup>2 - 2 * m2 * l * cos x * p1 * p2 + (m1 + m2) * p2\<^sup>2) * cos x)
            / (l\<^sup>2 * (m1 + m2 * (sin x)\<^sup>2)\<^sup>2)
          - m2 * g * l * sin x) (at x)"
proof -
  define D where "D = m1 + m2 * (sin x)\<^sup>2"
  define N where "N = m2 * l\<^sup>2 * p1\<^sup>2 - 2 * m2 * l * cos x * p1 * p2 + (m1 + m2) * p2\<^sup>2"
  have D0: "D \<noteq> 0" using D by (simp add: D_def)
  have dN: "((\<lambda>y. m2 * l\<^sup>2 * p1\<^sup>2 - 2 * m2 * l * cos y * p1 * p2 + (m1 + m2) * p2\<^sup>2)
              has_real_derivative 2 * m2 * l * sin x * p1 * p2) (at x)"
    by (auto intro!: derivative_eq_intros)
  have dD: "((\<lambda>y. 2 * m2 * l\<^sup>2 * (m1 + m2 * (sin y)\<^sup>2))
              has_real_derivative 4 * m2\<^sup>2 * l\<^sup>2 * sin x * cos x) (at x)"
    by (auto intro!: derivative_eq_intros simp: power2_eq_square)
  have nz: "2 * m2 * l\<^sup>2 * (m1 + m2 * (sin x)\<^sup>2) \<noteq> 0"
    using D l m2 by simp
  have dQ: "((\<lambda>y. (m2 * l\<^sup>2 * p1\<^sup>2 - 2 * m2 * l * cos y * p1 * p2 + (m1 + m2) * p2\<^sup>2)
                 / (2 * m2 * l\<^sup>2 * (m1 + m2 * (sin y)\<^sup>2)))
              has_real_derivative
              (2 * m2 * l * sin x * p1 * p2 * (2 * m2 * l\<^sup>2 * D) - N * (4 * m2\<^sup>2 * l\<^sup>2 * sin x * cos x))
                / (2 * m2 * l\<^sup>2 * D * (2 * m2 * l\<^sup>2 * D))) (at x)"
    unfolding D_def N_def by (rule DERIV_divide[OF dN dD nz])
  have dC: "((\<lambda>y. m2 * g * l * cos y) has_real_derivative - (m2 * g * l * sin x)) (at x)"
    by (auto intro!: derivative_eq_intros)
  have eq: "(2 * m2 * l * sin x * p1 * p2 * (2 * m2 * l\<^sup>2 * D) - N * (4 * m2\<^sup>2 * l\<^sup>2 * sin x * cos x))
                / (2 * m2 * l\<^sup>2 * D * (2 * m2 * l\<^sup>2 * D))
            = sin x * (l * p1 * p2 * D - N * cos x) / (l\<^sup>2 * D\<^sup>2)"
    using D0 l m2 by (simp add: field_simps power2_eq_square)
  from DERIV_add[OF dQ dC] show ?thesis
    unfolding eq unfolding D_def N_def by simp
qed

text \<open>
  The partial derivative of the Hamiltonian by the angle, taken at the momenta that
  belong to the velocities \<open>w1\<close>, \<open>w2\<close>.
\<close>

lemma hamiltonian_dx2_at_momenta:
  fixes s c m1 m2 l w1 w2 :: real
  assumes sc: "s\<^sup>2 + c\<^sup>2 = 1" and D: "m1 + m2 * s\<^sup>2 \<noteq> 0" and l: "l \<noteq> 0"
  defines "p1 \<equiv> (m1 + m2) * w1 + m2 * l * c * w2"
    and "p2 \<equiv> m2 * l * c * w1 + m2 * l\<^sup>2 * w2"
  shows "s * (l * p1 * p2 * (m1 + m2 * s\<^sup>2)
              - (m2 * l\<^sup>2 * p1\<^sup>2 - 2 * m2 * l * c * p1 * p2 + (m1 + m2) * p2\<^sup>2) * c)
           / (l\<^sup>2 * (m1 + m2 * s\<^sup>2)\<^sup>2)
         = m2 * l * s * w1 * w2"
proof -
  define D where "D = m1 + m2 * s\<^sup>2"
  have D0: "D \<noteq> 0" using D by (simp add: D_def)
  have A: "l * p1 - c * p2 = l * D * w1" and B: "(m1 + m2) * p2 - m2 * l * c * p1 = m2 * l\<^sup>2 * D * w2"
    unfolding p1_def p2_def D_def by (rule momenta_products[OF sc])+
  have "m2 * l\<^sup>2 * p1\<^sup>2 - 2 * m2 * l * c * p1 * p2 + (m1 + m2) * p2\<^sup>2
      = m2 * l * p1 * (l * p1 - c * p2) + p2 * ((m1 + m2) * p2 - m2 * l * c * p1)"
    by (simp add: algebra_simps power2_eq_square)
  then have N: "m2 * l\<^sup>2 * p1\<^sup>2 - 2 * m2 * l * c * p1 * p2 + (m1 + m2) * p2\<^sup>2
      = m2 * l\<^sup>2 * D * (p1 * w1 + p2 * w2)"
    unfolding A B by (simp add: algebra_simps power2_eq_square)
  have "p1 * p2 - m2 * l * c * (p1 * w1 + p2 * w2) = m2 * l * w2 * (l * p1 - c * p2)"
    unfolding p2_def by (simp add: algebra_simps power2_eq_square)
  then have E: "p1 * p2 - m2 * l * c * (p1 * w1 + p2 * w2) = m2 * l\<^sup>2 * D * w1 * w2"
    unfolding A by (simp add: algebra_simps power2_eq_square)
  have "l * p1 * p2 * D - (m2 * l\<^sup>2 * D * (p1 * w1 + p2 * w2)) * c
      = l * D * (p1 * p2 - m2 * l * c * (p1 * w1 + p2 * w2))"
    by (simp add: algebra_simps power2_eq_square)
  then have "l * p1 * p2 * D - (m2 * l\<^sup>2 * D * (p1 * w1 + p2 * w2)) * c
      = l * D * (m2 * l\<^sup>2 * D * w1 * w2)"
    unfolding E .
  then have "s * (l * p1 * p2 * D
              - (m2 * l\<^sup>2 * p1\<^sup>2 - 2 * m2 * l * c * p1 * p2 + (m1 + m2) * p2\<^sup>2) * c) / (l\<^sup>2 * D\<^sup>2)
      = s * (l * D * (m2 * l\<^sup>2 * D * w1 * w2)) / (l\<^sup>2 * D\<^sup>2)"
    unfolding N by simp
  also have "\<dots> = m2 * l * s * w1 * w2"
    using D0 l by (simp add: field_simps power2_eq_square)
  finally show ?thesis by (simp add: D_def)
qed

subsection \<open>Velocities and Hamiltonian\<close>

lemma eval_conjugate_momentum_eqs:
  "map (\<lambda>e. eval e env) conjugate_momentum_eqs =
     [env Sp1 - ((env Sm1 + env Sm2) * env Sx1d + env Sm2 * env Sl * cos (env Sx2) * env Sx2d),
      env Sp2 - (env Sm2 * env Sl * cos (env Sx2) * env Sx1d + env Sm2 * (env Sl)\<^sup>2 * env Sx2d)]"
  by (simp add: conjugate_momentum_eqs_def eval_dL_dx1d eval_dL_dx2d)

lemma vels_sol_env:
  "subs_env vels_sol env =
     env(Sx1d := (env Sl * env Sp1 - cos (env Sx2) * env Sp2)
                   / (env Sl * (env Sm1 + env Sm2 * (sin (env Sx2))\<^sup>2)),
         Sx2d := ((env Sm1 + env Sm2) * env Sp2 - env Sm2 * env Sl * cos (env Sx2) * env Sp1)
                   / (env Sm2 * (env Sl)\<^sup>2 * (env Sm1 + env Sm2 * (sin (env Sx2))\<^sup>2)))"
  by (auto simp: subs_env_def vels_sol_def fun_eq_iff)

lemma vels_sol_solves:
  assumes "env Sm1 + env Sm2 * (sin (env Sx2))\<^sup>2 \<noteq> 0" and "env Sl \<noteq> 0" and "env Sm2 \<noteq> 0"
  shows "map (\<lambda>e. eval e (subs_env vels_sol env)) conjugate_momentum_eqs = [0, 0]"
  unfolding eval_conjugate_momentum_eqs vels_sol_env
  using velocities_solve[OF sin_cos_squared_add assms, of "env Sp1" "env Sp2"]
  by simp

lemma vels_sol_unique:
  assumes "env Sm1 + env Sm2 * (sin (env Sx2))\<^sup>2 \<noteq> 0" and "env Sl \<noteq> 0" and "env Sm2 \<noteq> 0"
    and "map (\<lambda>e. eval e env) conjugate_momentum_eqs = [0, 0]"
  shows "map (\<lambda>(v, e). env v) vels_sol = map (\<lambda>(v, e). eval e env) vels_sol"
proof -
  have p: "env Sp1 = (env Sm1 + env Sm2) * env Sx1d + env Sm2 * env Sl * cos (env Sx2) * env Sx2d"
    "env Sp2 = env Sm2 * env Sl * cos (env Sx2) * env Sx1d + env Sm2 * (env Sl)\<^sup>2 * env Sx2d"
    using assms(4) unfolding eval_conjugate_momentum_eqs by simp_all
  show ?thesis
    using velocities_unique[OF sin_cos_squared_add assms(1-3), of "env Sx1d" "env Sx2d"]
    by (simp add: vels_sol_def p)
qed

lemma defined_H:
  "defined H env \<longleftrightarrow>
     env Sl \<noteq> 0 \<and> env Sm2 \<noteq> 0 \<and> env Sm1 + env Sm2 * (sin (env Sx2))\<^sup>2 \<noteq> 0"
  by (auto simp: H_def velocity_symbols vels_sol_def kin_defs)

lemma eval_H:
  assumes "env Sm1 + env Sm2 * (sin (env Sx2))\<^sup>2 \<noteq> 0" and "env Sl \<noteq> 0" and "env Sm2 \<noteq> 0"
  shows "eval H env =
     (env Sm2 * (env Sl)\<^sup>2 * (env Sp1)\<^sup>2 - 2 * env Sm2 * env Sl * cos (env Sx2) * env Sp1 * env Sp2
        + (env Sm1 + env Sm2) * (env Sp2)\<^sup>2)
       / (2 * env Sm2 * (env Sl)\<^sup>2 * (env Sm1 + env Sm2 * (sin (env Sx2))\<^sup>2))
     + env Sm2 * env Sg * env Sl * cos (env Sx2)"
proof -
  have "eval H env = eval (Sub (Add (Mul (Sym Sp1) v1) (Mul (Sym Sp2) v2)) L) (subs_env vels_sol env)"
    by (simp only: H_def eval_subs)
  also have "\<dots> =
     (env Sm2 * (env Sl)\<^sup>2 * (env Sp1)\<^sup>2 - 2 * env Sm2 * env Sl * cos (env Sx2) * env Sp1 * env Sp2
        + (env Sm1 + env Sm2) * (env Sp2)\<^sup>2)
       / (2 * env Sm2 * (env Sl)\<^sup>2 * (env Sm1 + env Sm2 * (sin (env Sx2))\<^sup>2))
     + env Sm2 * env Sg * env Sl * cos (env Sx2)"
    using hamiltonian_closed[OF sin_cos_squared_add assms, of "env Sp1" "env Sp2" "env Sg"]
    by (simp add: velocity_symbols eval_L vels_sol_env)
  finally show ?thesis .
qed

lemma eval_dH_dp1:
  assumes nz: "env Sm1 + env Sm2 * (sin (env Sx2))\<^sup>2 \<noteq> 0" "env Sl \<noteq> 0" "env Sm2 \<noteq> 0"
  shows "eval (ddx H Sp1) env =
     (env Sl * env Sp1 - cos (env Sx2) * env Sp2)
       / (env Sl * (env Sm1 + env Sm2 * (sin (env Sx2))\<^sup>2))"
proof -
  have "defined H env" using nz by (simp add: defined_H)
  from ddx_correct[OF this, of Sp1]
  have d1: "((\<lambda>s. eval H (env(Sp1 := s))) has_real_derivative eval (ddx H Sp1) env) (at (env Sp1))" .
  have feq: "(\<lambda>s. eval H (env(Sp1 := s))) =
     (\<lambda>p. (env Sm2 * (env Sl)\<^sup>2 * p\<^sup>2 - 2 * env Sm2 * env Sl * cos (env Sx2) * p * env Sp2
              + (env Sm1 + env Sm2) * (env Sp2)\<^sup>2)
             / (2 * env Sm2 * (env Sl)\<^sup>2 * (env Sm1 + env Sm2 * (sin (env Sx2))\<^sup>2))
           + env Sm2 * env Sg * env Sl * cos (env Sx2))"
    using nz by (simp add: eval_H fun_eq_iff)
  show ?thesis
    by (rule DERIV_unique[OF d1[unfolded feq]
          hamiltonian_dp1[OF nz, where c = "cos (env Sx2)" and ?p2.0 = "env Sp2"
            and ?m1.0 = "env Sm1" and g = "env Sg" and ?p1.0 = "env Sp1"]])
qed

lemma eval_dH_dp2:
  assumes nz: "env Sm1 + env Sm2 * (sin (env Sx2))\<^sup>2 \<noteq> 0" "env Sl \<noteq> 0" "env Sm2 \<noteq> 0"
  shows "eval (ddx H Sp2) env =
     ((env Sm1 + env Sm2) * env Sp2 - env Sm2 * env Sl * cos (env Sx2) * env Sp1)
       / (env Sm2 * (env Sl)\<^sup>2 * (env Sm1 + env Sm2 * (sin (env Sx2))\<^sup>2))"
proof -
  have "defined H env" using nz by (simp add: defined_H)
  from ddx_correct[OF this, of Sp2]
  have d1: "((\<lambda>s. eval H (env(Sp2 := s))) has_real_derivative eval (ddx H Sp2) env) (at (env Sp2))" .
  have feq: "(\<lambda>s. eval H (env(Sp2 := s))) =
     (\<lambda>p. (env Sm2 * (env Sl)\<^sup>2 * (env Sp1)\<^sup>2 - 2 * env Sm2 * env Sl * cos (env Sx2) * env Sp1 * p
              + (env Sm1 + env Sm2) * p\<^sup>2)
             / (2 * env Sm2 * (env Sl)\<^sup>2 * (env Sm1 + env Sm2 * (sin (env Sx2))\<^sup>2))
           + env Sm2 * env Sg * env Sl * cos (env Sx2))"
    using nz by (simp add: eval_H fun_eq_iff)
  show ?thesis
    by (rule DERIV_unique[OF d1[unfolded feq]
          hamiltonian_dp2[OF nz, where c = "cos (env Sx2)" and ?p2.0 = "env Sp2"
            and ?m1.0 = "env Sm1" and g = "env Sg" and ?p1.0 = "env Sp1"]])
qed

lemma eval_dH_dx1:
  assumes nz: "env Sm1 + env Sm2 * (sin (env Sx2))\<^sup>2 \<noteq> 0" "env Sl \<noteq> 0" "env Sm2 \<noteq> 0"
  shows "eval (ddx H Sx1) env = 0"
proof -
  have "defined H env" using nz by (simp add: defined_H)
  from ddx_correct[OF this, of Sx1]
  have d1: "((\<lambda>s. eval H (env(Sx1 := s))) has_real_derivative eval (ddx H Sx1) env) (at (env Sx1))" .
  have feq: "(\<lambda>s. eval H (env(Sx1 := s))) = (\<lambda>s. eval H env)"
    using nz by (simp add: eval_H fun_eq_iff)
  have d2: "((\<lambda>s. eval H env) has_real_derivative 0) (at (env Sx1))"
    by simp
  show ?thesis by (rule DERIV_unique[OF d1[unfolded feq] d2])
qed

text \<open>
  The derivative by the angle needs the closed form of \<open>H\<close> at every angle near the
  one considered; with positive masses the denominator is positive at every angle.
\<close>

lemma denominator_positive:
  fixes m1 m2 x :: real
  assumes "0 < m1" and "0 < m2"
  shows "m1 + m2 * (sin x)\<^sup>2 > 0"
  using assms by (simp add: add_pos_nonneg)

lemma eval_dH_dx2:
  assumes pos: "0 < env Sm1" "0 < env Sm2" and l: "env Sl \<noteq> 0"
  shows "eval (ddx H Sx2) env =
     sin (env Sx2) * (env Sl * env Sp1 * env Sp2 * (env Sm1 + env Sm2 * (sin (env Sx2))\<^sup>2)
        - (env Sm2 * (env Sl)\<^sup>2 * (env Sp1)\<^sup>2 - 2 * env Sm2 * env Sl * cos (env Sx2) * env Sp1 * env Sp2
            + (env Sm1 + env Sm2) * (env Sp2)\<^sup>2) * cos (env Sx2))
       / ((env Sl)\<^sup>2 * (env Sm1 + env Sm2 * (sin (env Sx2))\<^sup>2)\<^sup>2)
     - env Sm2 * env Sg * env Sl * sin (env Sx2)"
proof -
  have D: "env Sm1 + env Sm2 * (sin y)\<^sup>2 \<noteq> 0" for y
    using denominator_positive[OF pos, of y] by simp
  have m2: "env Sm2 \<noteq> 0" using pos by simp
  have "defined H env" using D l m2 by (simp add: defined_H)
  from ddx_correct[OF this, of Sx2]
  have d1: "((\<lambda>s. eval H (env(Sx2 := s))) has_real_derivative eval (ddx H Sx2) env) (at (env Sx2))" .
  have feq: "(\<lambda>s. eval H (env(Sx2 := s))) =
     (\<lambda>y. (env Sm2 * (env Sl)\<^sup>2 * (env Sp1)\<^sup>2 - 2 * env Sm2 * env Sl * cos y * env Sp1 * env Sp2
              + (env Sm1 + env Sm2) * (env Sp2)\<^sup>2)
             / (2 * env Sm2 * (env Sl)\<^sup>2 * (env Sm1 + env Sm2 * (sin y)\<^sup>2))
           + env Sm2 * env Sg * env Sl * cos y)"
    using D l m2 by (simp add: eval_H fun_eq_iff)
  show ?thesis
    by (rule DERIV_unique[OF d1[unfolded feq]
          hamiltonian_dx2[OF D l m2, where ?p2.0 = "env Sp2" and g = "env Sg" and ?p1.0 = "env Sp1"]])
qed

subsection \<open>The Hamiltonian dynamics function and its linearised model\<close>

lemma syms_H: "syms H \<subseteq> {Sx2, Sp1, Sp2, Sm1, Sm2, Sl, Sg}"
  by (auto simp: H_def velocity_symbols vels_sol_def kin_defs split: if_splits)

lemma syms_DE_eqs:
  "list_all (\<lambda>e. syms e \<subseteq> set [Sx1, Sp1, Sx2, Sp2, St, Su, Sm1, Sm2, Sl, Sg]) DE_eqs"
proof -
  have "syms (ddx H v) \<subseteq> {Sx2, Sp1, Sp2, Sm1, Sm2, Sl, Sg}" for v
    using syms_ddx[of H v] syms_H by blast
  from this[of Sp1] this[of Sp2] this[of Sx1] this[of Sx2] show ?thesis
    by (auto simp: DE_eqs_def x1d_exp_def p1d_exp_def x2d_exp_def p2d_exp_def)
qed

lemma rates_are_Xds_H:
  "get_PendulumCartRates_Hamiltonian [x1, p1, x2, p2] t (control_const u) m1 m2 l g =
     Inr (map (\<lambda>e. eval e (bind [Sx1, Sp1, Sx2, Sp2, St, Su, Sm1, Sm2, Sl, Sg]
                                 [x1, p1, x2, p2, t, u, m1, m2, l, g])) Xds_H)"
  by (simp add: get_PendulumCartRates_Hamiltonian_def control_const_def DE_funcs_def DE_eqs_def
      Xds_H_def to_eq_def lambdify_def)

lemma get_PendulumCartRates_Hamiltonian_closed:
  assumes "0 < m1" and "0 < m2" and "l \<noteq> 0"
  shows "get_PendulumCartRates_Hamiltonian [x1, p1, x2, p2] t (control_const u) m1 m2 l g =
     Inr [(l * p1 - cos x2 * p2) / (l * (m1 + m2 * (sin x2)\<^sup>2)),
          - u,
          ((m1 + m2) * p2 - m2 * l * cos x2 * p1) / (m2 * l\<^sup>2 * (m1 + m2 * (sin x2)\<^sup>2)),
          - (sin x2 * (l * p1 * p2 * (m1 + m2 * (sin x2)\<^sup>2)
               - (m2 * l\<^sup>2 * p1\<^sup>2 - 2 * m2 * l * cos x2 * p1 * p2 + (m1 + m2) * p2\<^sup>2) * cos x2)
              / (l\<^sup>2 * (m1 + m2 * (sin x2)\<^sup>2)\<^sup>2)
             - m2 * g * l * sin x2)]"
proof -
  define env where "env = bind [Sx1, Sp1, Sx2, Sp2, St, Su, Sm1, Sm2, Sl, Sg]
                                 [x1, p1, x2, p2, t, u, m1, m2, l, g]"
  have v: "env Sx1 = x1" "env Sp1 = p1" "env Sx2 = x2" "env Sp2 = p2" "env Su = u"
    "env Sm1 = m1" "env Sm2 = m2" "env Sl = l" "env Sg = g"
    by (simp_all add: env_def bind_def)
  have pos: "0 < env Sm1" "0 < env Sm2" and l: "env Sl \<noteq> 0"
    using assms by (simp_all add: v)
  have nz: "env Sm1 + env Sm2 * (sin (env Sx2))\<^sup>2 \<noteq> 0" "env Sl \<noteq> 0" "env Sm2 \<noteq> 0"
    using denominator_positive[OF pos, of "env Sx2"] pos l by simp_all
  have "map (\<lambda>e. eval e env) Xds_H =
     [eval (ddx H Sp1) env, - eval (ddx H Sx1) env - env Su, eval (ddx H Sp2) env,
      - eval (ddx H Sx2) env]"
    by (simp add: Xds_H_def x1d_exp_def p1d_exp_def x2d_exp_def p2d_exp_def)
  then show ?thesis
    unfolding rates_are_Xds_H env_def[symmetric]
    unfolding eval_dH_dp1[OF nz] eval_dH_dp2[OF nz] eval_dH_dx1[OF nz] eval_dH_dx2[OF pos l]
    by (simp add: v)
qed




lemma stationary_env_H:
  "subs_env subs_stationary_H env = env(Sx2 := pi, Sp1 := 0, Sp2 := 0)"
  by (auto simp: subs_env_def subs_stationary_H_def fun_eq_iff)



lemma A_sp_H_value:
  assumes pos: "0 < env Sm1" "0 < env Sm2" and l: "env Sl \<noteq> 0"
  shows "map (map (\<lambda>e. eval e env)) A_sp_H =
     [[0, 1 / env Sm1, 0, 1 / (env Sl * env Sm1)],
      [0, 0, 0, 0],
      [0, 1 / (env Sl * env Sm1), 0, (env Sm1 + env Sm2) / (env Sm2 * (env Sl)\<^sup>2 * env Sm1)],
      [0, 0, - (env Sm2 * env Sg * env Sl), 0]]"
proof -
  define eq where "eq = subs_env subs_stationary_H env"
  have v: "eq Sx2 = pi" "eq Sp1 = 0" "eq Sp2 = 0" "eq Sm1 = env Sm1" "eq Sm2 = env Sm2"
    "eq Sl = env Sl" "eq Sg = env Sg"
    by (simp_all add: eq_def stationary_env_H)
  have m1: "env Sm1 \<noteq> 0" and m2: "env Sm2 \<noteq> 0" using pos by simp_all
  have D: "env Sm1 + env Sm2 * (sin y)\<^sup>2 \<noteq> 0" for y
    using denominator_positive[OF pos, of y] by simp
  have dH: "defined H eq"
    using D[of pi] l m2 by (simp add: defined_H v)
  have absent: "Sx1 \<notin> syms (ddx H w)" "Sx1 \<notin> syms H" for w
    using syms_ddx[of H w] syms_H by auto
  \<comment> \<open>the column of \<open>x1\<close>\<close>
  have c0: "eval (ddx (ddx H w) Sx1) eq = 0" for w
    by (rule eval_ddx_absent[OF absent(1)])
  \<comment> \<open>the row of \<open>p1\<close>: the derivative of \<open>H\<close> by \<open>x1\<close> vanishes at every point\<close>
  have r1: "eval (ddx (ddx H Sx1) b) eq = 0" for b
    by (rule second_derivative_value[OF dH, where F = "\<lambda>s. 0"])
       (simp_all add: eval_ddx_absent[OF absent(2)])
  \<comment> \<open>the row of \<open>x1\<close>\<close>
  have r0p1: "eval (ddx (ddx H Sp1) Sp1) eq = 1 / env Sm1"
  proof (rule second_derivative_value[OF dH, where F = "\<lambda>s. s / env Sm1"])
    show "eval (ddx H Sp1) (eq(Sp1 := s)) = s / env Sm1" for s
      using D[of pi] l m1 m2 by (subst eval_dH_dp1) (simp_all add: v)
    show "((\<lambda>s. s / env Sm1) has_real_derivative 1 / env Sm1) (at (eq Sp1))"
      using l m1 m2 by (auto intro!: derivative_eq_intros)
  qed
  have r0p2: "eval (ddx (ddx H Sp1) Sp2) eq = 1 / (env Sl * env Sm1)"
  proof (rule second_derivative_value[OF dH, where F = "\<lambda>s. s / (env Sl * env Sm1)"])
    show "eval (ddx H Sp1) (eq(Sp2 := s)) = s / (env Sl * env Sm1)" for s
      using D[of pi] l m1 m2 by (subst eval_dH_dp1) (simp_all add: v)
    show "((\<lambda>s. s / (env Sl * env Sm1)) has_real_derivative 1 / (env Sl * env Sm1)) (at (eq Sp2))"
      using l m1 m2 by (auto intro!: derivative_eq_intros)
  qed
  have r0x2: "eval (ddx (ddx H Sp1) Sx2) eq = 0"
  proof (rule second_derivative_value[OF dH, where F = "\<lambda>s. 0"])
    show "eval (ddx H Sp1) (eq(Sx2 := s)) = 0" for s
      using D[of s] l m2 by (subst eval_dH_dp1) (simp_all add: v)
  qed simp
  \<comment> \<open>the row of \<open>x2\<close>\<close>
  have r2p1: "eval (ddx (ddx H Sp2) Sp1) eq = 1 / (env Sl * env Sm1)"
  proof (rule second_derivative_value[OF dH, where F = "\<lambda>s. s / (env Sl * env Sm1)"])
    show "eval (ddx H Sp2) (eq(Sp1 := s)) = s / (env Sl * env Sm1)" for s
      using D[of pi] l m1 m2
      by (subst eval_dH_dp2) (simp_all add: v power2_eq_square)
    show "((\<lambda>s. s / (env Sl * env Sm1)) has_real_derivative 1 / (env Sl * env Sm1)) (at (eq Sp1))"
      using l m1 m2 by (auto intro!: derivative_eq_intros)
  qed
  have r2p2: "eval (ddx (ddx H Sp2) Sp2) eq
      = (env Sm1 + env Sm2) / (env Sm2 * (env Sl)\<^sup>2 * env Sm1)"
  proof (rule second_derivative_value[OF dH,
        where F = "\<lambda>s. (env Sm1 + env Sm2) * s / (env Sm2 * (env Sl)\<^sup>2 * env Sm1)"])
    show "eval (ddx H Sp2) (eq(Sp2 := s))
        = (env Sm1 + env Sm2) * s / (env Sm2 * (env Sl)\<^sup>2 * env Sm1)" for s
      using D[of pi] l m1 m2 by (subst eval_dH_dp2) (simp_all add: v)
    show "((\<lambda>s. (env Sm1 + env Sm2) * s / (env Sm2 * (env Sl)\<^sup>2 * env Sm1)) has_real_derivative
             (env Sm1 + env Sm2) / (env Sm2 * (env Sl)\<^sup>2 * env Sm1)) (at (eq Sp2))"
      using l m1 m2 by (auto intro!: derivative_eq_intros)
  qed
  have r2x2: "eval (ddx (ddx H Sp2) Sx2) eq = 0"
  proof (rule second_derivative_value[OF dH, where F = "\<lambda>s. 0"])
    show "eval (ddx H Sp2) (eq(Sx2 := s)) = 0" for s
      using D[of s] l m2 by (subst eval_dH_dp2) (simp_all add: v)
  qed simp
  \<comment> \<open>the row of \<open>p2\<close>\<close>
  have r3p1: "eval (ddx (ddx H Sx2) Sp1) eq = 0"
  proof (rule second_derivative_value[OF dH, where F = "\<lambda>s. 0"])
    show "eval (ddx H Sx2) (eq(Sp1 := s)) = 0" for s
      using pos l by (subst eval_dH_dx2) (simp_all add: v)
  qed simp
  have r3p2: "eval (ddx (ddx H Sx2) Sp2) eq = 0"
  proof (rule second_derivative_value[OF dH, where F = "\<lambda>s. 0"])
    show "eval (ddx H Sx2) (eq(Sp2 := s)) = 0" for s
      using pos l by (subst eval_dH_dx2) (simp_all add: v)
  qed simp
  have r3x2: "eval (ddx (ddx H Sx2) Sx2) eq = env Sm2 * env Sg * env Sl"
  proof (rule second_derivative_value[OF dH,
        where F = "\<lambda>s. - (env Sm2 * env Sg * env Sl * sin s)"])
    show "eval (ddx H Sx2) (eq(Sx2 := s)) = - (env Sm2 * env Sg * env Sl * sin s)" for s
      using pos l by (subst eval_dH_dx2) (simp_all add: v)
    show "((\<lambda>s. - (env Sm2 * env Sg * env Sl * sin s)) has_real_derivative
             env Sm2 * env Sg * env Sl) (at (eq Sx2))"
      by (auto intro!: derivative_eq_intros simp: v)
  qed
  show ?thesis
    by (simp add: A_sp_H_def Xs_H_def Xds_H_def x1d_exp_def p1d_exp_def x2d_exp_def p2d_exp_def
        ddx_simps eval_subs eq_def[symmetric]
        c0 r1 r0p1 r0p2 r0x2 r2p1 r2p2 r2x2 r3p1 r3p2 r3x2)
qed



section \<open>Trajectories and the momentum map\<close>

lemma list4: "length xs = 4 \<Longrightarrow> xs = [xs ! 0, xs ! 1, xs ! 2, xs ! 3]"
  by (auto simp: list_eq_iff_nth_eq nth_Cons' numeral_eq_Suc less_Suc_eq)

lemma less4_cases: "i < (4::nat) \<Longrightarrow> i = 0 \<or> i = 1 \<or> i = 2 \<or> i = 3"
  by arith

lemma ode_solution4_I:
  assumes "f [a t, b t, c t, d t] t = Inr [r0, r1, r2, r3]"
    and "(a has_real_derivative r0) (at t)" and "(b has_real_derivative r1) (at t)"
    and "(c has_real_derivative r2) (at t)" and "(d has_real_derivative r3) (at t)"
  shows "ode_solution f (\<lambda>s. [a s, b s, c s, d s]) t"
proof -
  have "((\<lambda>s. [a s, b s, c s, d s] ! i) has_real_derivative [r0, r1, r2, r3] ! i) (at t)"
    if "i < 4" for i
    using less4_cases[OF that] assms(2-5) by auto
  then show ?thesis
    by (simp add: ode_solution_def assms(1))
qed

lemma ode_solution4_D:
  assumes "ode_solution f (\<lambda>s. [a s, b s, c s, d s]) t"
  obtains r0 r1 r2 r3 where "f [a t, b t, c t, d t] t = Inr [r0, r1, r2, r3]"
    and "(a has_real_derivative r0) (at t)" and "(b has_real_derivative r1) (at t)"
    and "(c has_real_derivative r2) (at t)" and "(d has_real_derivative r3) (at t)"
proof -
  from assms obtain r where r: "f [a t, b t, c t, d t] t = Inr r" and len: "length r = 4"
    and der: "\<And>i. i < 4 \<Longrightarrow> ((\<lambda>s. [a s, b s, c s, d s] ! i) has_real_derivative r ! i) (at t)"
    by (auto simp: ode_solution_def split: sum.splits)
  have "r = [r ! 0, r ! 1, r ! 2, r ! 3]" by (rule list4[OF len])
  moreover from der[of 0] der[of 1] der[of 2] der[of 3]
  have "(a has_real_derivative r ! 0) (at t)" "(b has_real_derivative r ! 1) (at t)"
    "(c has_real_derivative r ! 2) (at t)" "(d has_real_derivative r ! 3) (at t)"
    by simp_all
  ultimately show ?thesis using that r by metis
qed

lemma to_momentum_closed:
  "to_momentum m1 m2 l [x1, w1, x2, w2] =
     [x1, (m1 + m2) * w1 + m2 * l * cos x2 * w2, x2, m2 * l * cos x2 * w1 + m2 * l\<^sup>2 * w2]"
  by (simp add: to_momentum_def eval_dL_dx1d eval_dL_dx2d bind_def)

lemma to_momentum_linear:
  "to_momentum m1 m2 l [x, \<alpha> * b1 + \<beta> * c1, y, \<alpha> * b2 + \<beta> * c2] ! 1 =
     \<alpha> * (to_momentum m1 m2 l [x, b1, y, b2] ! 1) + \<beta> * (to_momentum m1 m2 l [x, c1, y, c2] ! 1)"
  "to_momentum m1 m2 l [x, \<alpha> * b1 + \<beta> * c1, y, \<alpha> * b2 + \<beta> * c2] ! 3 =
     \<alpha> * (to_momentum m1 m2 l [x, b1, y, b2] ! 3) + \<beta> * (to_momentum m1 m2 l [x, c1, y, c2] ! 3)"
  by (simp_all add: to_momentum_closed algebra_simps numeral_3_eq_3)

lemma eval_rate_dL_dx1d:
  "eval (dd (state_rate [r0, r1, r2, r3]) (ddx L Sx1d)) env =
     (env Sm1 + env Sm2) * r1 + env Sm2 * env Sl * cos (env Sx2) * r3
     - env Sm2 * env Sl * sin (env Sx2) * r2 * env Sx2d"
  by (simp add: kin_defs state_rate_def numeral_3_eq_3) (simp add: field_simps)

lemma eval_rate_dL_dx2d:
  "eval (dd (state_rate [r0, r1, r2, r3]) (ddx L Sx2d)) env =
     env Sm2 * env Sl * cos (env Sx2) * r1 - env Sm2 * env Sl * sin (env Sx2) * r2 * env Sx1d
     + env Sm2 * (env Sl)\<^sup>2 * r3"
  by (simp add: kin_defs state_rate_def numeral_3_eq_3)
     (simp add: field_simps power2_eq_square sin_sq_cos)

lemma momentum_rates_closed:
  "momentum_rates m1 m2 l [x1, w1, x2, w2] [r0, r1, r2, r3] =
     [r0, (m1 + m2) * r1 + m2 * l * cos x2 * r3 - m2 * l * sin x2 * r2 * w2,
      r2, m2 * l * cos x2 * r1 - m2 * l * sin x2 * r2 * w1 + m2 * l\<^sup>2 * r3]"
  by (simp add: momentum_rates_def eval_rate_dL_dx1d eval_rate_dL_dx2d bind_def)

text \<open>\<open>momentum_rates\<close> is the time derivative of the momentum state along a trajectory.\<close>

lemma momentum_rates_derivative:
  assumes "(a has_real_derivative r0) (at t)" and "(b has_real_derivative r1) (at t)"
    and "(c has_real_derivative r2) (at t)" and "(d has_real_derivative r3) (at t)"
  shows "ode_solution (\<lambda>Y t'. Inr (momentum_rates m1 m2 l [a t, b t, c t, d t] [r0, r1, r2, r3]))
           (\<lambda>s. to_momentum m1 m2 l [a s, b s, c s, d s]) t"
proof -
  have p1: "((\<lambda>s. (m1 + m2) * b s + m2 * l * cos (c s) * d s) has_real_derivative
              (m1 + m2) * r1 + m2 * l * cos (c t) * r3 - m2 * l * sin (c t) * r2 * d t) (at t)"
    using assms by (auto intro!: derivative_eq_intros simp: algebra_simps)
  have p2: "((\<lambda>s. m2 * l * cos (c s) * b s + m2 * l\<^sup>2 * d s) has_real_derivative
              m2 * l * cos (c t) * r1 - m2 * l * sin (c t) * r2 * b t + m2 * l\<^sup>2 * r3) (at t)"
    using assms by (auto intro!: derivative_eq_intros simp: algebra_simps)
  show ?thesis
    unfolding to_momentum_closed momentum_rates_closed
    apply (rule ode_solution4_I)
        apply (rule refl)
       apply (rule assms(1))
      apply (rule p1)
     apply (rule assms(3))
    apply (rule p2)
    done
qed

lemma ode_solution_cong:
  assumes "f (X t) t = f' (X t) t"
  shows "ode_solution f X t = ode_solution f' X t"
  by (simp add: ode_solution_def assms)

text \<open>
  At every state, the Hamiltonian rates with the control \<open>- u\<close>, taken at the momentum
  state, are the rates at which the momentum state changes when the velocity state
  changes at the Lagrangian rates with the control \<open>u\<close>.
\<close>

lemma hamiltonian_matches_pushforward:
  assumes pos: "0 < m1" "0 < m2" and l: "l \<noteq> 0"
    and r: "get_PendulumCartRates [x1, w1, x2, w2] t (control_const u) m1 m2 l g = Inr r"
  shows "get_PendulumCartRates_Hamiltonian (to_momentum m1 m2 l [x1, w1, x2, w2]) t
           (control_const (- u)) m1 m2 l g
         = Inr (momentum_rates m1 m2 l [x1, w1, x2, w2] r)"
proof -
  define s c where sc_def: "s = sin x2" "c = cos x2"
  have sc: "s\<^sup>2 + c\<^sup>2 = 1" by (simp add: sc_def)
  have D: "m1 + m2 * s\<^sup>2 \<noteq> 0"
    using denominator_positive[OF pos, of x2] by (simp add: sc_def)
  have m2: "m2 \<noteq> 0" using pos by simp
  define A1 where "A1 = (u + m2 * l * s * w2\<^sup>2 - m2 * g * s * c) / (m1 + m2 * s\<^sup>2)"
  define A2 where "A2 = ((m1 + m2) * g * s - u * c - m2 * l * s * c * w2\<^sup>2) / (l * (m1 + m2 * s\<^sup>2))"
  define p1 where "p1 = (m1 + m2) * w1 + m2 * l * c * w2"
  define p2 where "p2 = m2 * l * c * w1 + m2 * l\<^sup>2 * w2"
  have r': "r = [w1, A1, w2, A2]"
    using r unfolding get_PendulumCartRates_closed by (simp add: A1_def A2_def sc_def)
  have tm: "to_momentum m1 m2 l [x1, w1, x2, w2] = [x1, p1, x2, p2]"
    by (simp add: to_momentum_closed p1_def p2_def sc_def)
  have e1: "(m1 + m2) * A1 + m2 * l * c * A2 - m2 * l * s * w2\<^sup>2 - u = 0"
    and e2: "m2 * l * c * A1 + m2 * l\<^sup>2 * A2 - m2 * g * l * s = 0"
    unfolding A1_def A2_def by (rule accelerations_solve[OF sc D l])+
  have v1: "(l * p1 - c * p2) / (l * (m1 + m2 * s\<^sup>2)) = w1"
    and v2: "((m1 + m2) * p2 - m2 * l * c * p1) / (m2 * l\<^sup>2 * (m1 + m2 * s\<^sup>2)) = w2"
    unfolding p1_def p2_def by (rule velocities_unique[OF sc D l m2])+
  have h4: "s * (l * p1 * p2 * (m1 + m2 * s\<^sup>2)
              - (m2 * l\<^sup>2 * p1\<^sup>2 - 2 * m2 * l * c * p1 * p2 + (m1 + m2) * p2\<^sup>2) * c)
           / (l\<^sup>2 * (m1 + m2 * s\<^sup>2)\<^sup>2)
         = m2 * l * s * w1 * w2"
    unfolding p1_def p2_def by (rule hamiltonian_dx2_at_momenta[OF sc D l])
  have lhs: "get_PendulumCartRates_Hamiltonian [x1, p1, x2, p2] t (control_const (- u)) m1 m2 l g
      = Inr [w1, u, w2, - (m2 * l * s * w1 * w2 - m2 * g * l * s)]"
    unfolding get_PendulumCartRates_Hamiltonian_closed[OF pos l] sc_def[symmetric] v1 v2 h4
    by simp
  have rhs: "momentum_rates m1 m2 l [x1, w1, x2, w2] r
      = [w1, (m1 + m2) * A1 + m2 * l * c * A2 - m2 * l * s * w2 * w2,
         w2, m2 * l * c * A1 - m2 * l * s * w2 * w1 + m2 * l\<^sup>2 * A2]"
    unfolding r' momentum_rates_closed sc_def[symmetric] by simp
  have c1: "u = (m1 + m2) * A1 + m2 * l * c * A2 - m2 * l * s * w2 * w2"
    using e1 by (simp add: power2_eq_square)
  have c3: "- (m2 * l * s * w1 * w2 - m2 * g * l * s)
      = m2 * l * c * A1 - m2 * l * s * w2 * w1 + m2 * l\<^sup>2 * A2"
    using e2 by (simp add: algebra_simps)
  show ?thesis
    unfolding tm lhs rhs using c1 c3 by simp
qed

lemma ode_solution_rates_unique:
  assumes "ode_solution f X t" and "ode_solution f' X t"
  shows "f (X t) t = f' (X t) t"
proof -
  from assms(1) obtain r where r: "f (X t) t = Inr r" "length r = length (X t)"
    "\<And>i. i < length r \<Longrightarrow> ((\<lambda>s. X s ! i) has_real_derivative r ! i) (at t)"
    by (auto simp: ode_solution_def split: sum.splits)
  from assms(2) obtain r' where r': "f' (X t) t = Inr r'" "length r' = length (X t)"
    "\<And>i. i < length r' \<Longrightarrow> ((\<lambda>s. X s ! i) has_real_derivative r' ! i) (at t)"
    by (auto simp: ode_solution_def split: sum.splits)
  have "r ! i = r' ! i" if "i < length r" for i
    using DERIV_unique[OF r(3)[OF that] r'(3)[of i]] that r(2) r'(2) by simp
  then have "r = r'"
    using r(2) r'(2) by (simp add: list_eq_iff_nth_eq)
  then show ?thesis by (simp add: r(1) r'(1))
qed

text \<open>A trajectory through the origin that follows the Lagrangian dynamics with force 1.\<close>

lemma unit_force_trajectory:
  "ode_solution (\<lambda>Y t. get_PendulumCartRates Y t (control_const 1) 1 1 1 (- 10))
     (\<lambda>s. [s\<^sup>2 / 2, s, - (s\<^sup>2 / 2), - s]) 0"
proof (rule ode_solution4_I)
  show "get_PendulumCartRates [0\<^sup>2 / 2, 0, - (0\<^sup>2 / 2), - 0] 0 (control_const 1) 1 1 1 (- 10)
          = Inr [0, 1, 0, - 1]"
    by (simp add: get_PendulumCartRates_closed)
  show "((\<lambda>s::real. s\<^sup>2 / 2) has_real_derivative 0) (at 0)"
    by (auto intro!: derivative_eq_intros)
  show "((\<lambda>s::real. s) has_real_derivative 1) (at 0)"
    by (auto intro!: derivative_eq_intros)
  show "((\<lambda>s::real. - (s\<^sup>2 / 2)) has_real_derivative 0) (at 0)"
    by (auto intro!: derivative_eq_intros)
  show "((\<lambda>s::real. - s) has_real_derivative - 1) (at 0)"
    by (auto intro!: derivative_eq_intros)
qed

lemma unit_force_momentum_trajectory:
  "ode_solution (\<lambda>Y t'. Inr [0, 1, 0, 0])
     (\<lambda>s. to_momentum 1 1 1 [s\<^sup>2 / 2, s, - (s\<^sup>2 / 2), - s]) 0"
proof -
  have "ode_solution
     (\<lambda>Y t'. Inr (momentum_rates 1 1 1 [0\<^sup>2 / 2, 0, - (0\<^sup>2 / 2), - 0] [0, 1, 0, - 1]))
     (\<lambda>s. to_momentum 1 1 1 [s\<^sup>2 / 2, s, - (s\<^sup>2 / 2), - s]) 0"
    by (rule momentum_rates_derivative) (auto intro!: derivative_eq_intros)
  then show ?thesis by (simp add: momentum_rates_closed)
qed

section \<open>Properties of the float64 model and of the time grid\<close>

text \<open>
  How \<open>round_f64\<close> is evaluated at a given number: the exponent is the one whose power
  of two brackets the number, and the significand is the integer nearest to the scaled
  number.
\<close>

lemma rne_of_int: "rne (of_int n) = n"
  by (simp add: rne_def)

lemma rne_near:
  assumes "of_int n - 1 / 2 < x" and "x < of_int n + 1 / 2"
  shows "rne x = n"
proof (cases "of_int n \<le> x")
  case True
  with assms have "\<lfloor>x\<rfloor> = n" by (intro floor_unique) auto
  with assms show ?thesis by (simp add: rne_def Let_def)
next
  case False
  with assms have f: "\<lfloor>x\<rfloor> = n - 1" by (intro floor_unique) auto
  with assms False show ?thesis by (simp add: rne_def Let_def)
qed

lemma rne_tie_down:
  assumes "x = of_int n + 1 / 2" and "even n"
  shows "rne x = n"
proof -
  from assms have "\<lfloor>x\<rfloor> = n" by (intro floor_unique) auto
  with assms show ?thesis by (simp add: rne_def Let_def)
qed

lemma rne_tie_up:
  assumes "x = of_int n - 1 / 2" and "even n"
  shows "rne x = n"
proof -
  from assms have "\<lfloor>x\<rfloor> = n - 1" by (intro floor_unique) auto
  with assms show ?thesis by (simp add: rne_def Let_def)
qed

lemma find_append_None:
  "\<forall>x\<in>set xs. \<not> P x \<Longrightarrow> find P (xs @ ys) = find P ys"
  by (induction xs) auto

lemma find_rev_upto:
  assumes "a \<le> e" and "e \<le> b" and "P e" and "\<And>k. e < k \<Longrightarrow> k \<le> b \<Longrightarrow> \<not> P k"
  shows "find P (rev [a..b]) = Some e"
proof -
  have "[a..b] = [a..e - 1] @ e # [e + 1..b]"
    using assms(1,2) by (rule upto_split3)
  then have "rev [a..b] = rev [e + 1..b] @ e # rev [a..e - 1]" by simp
  moreover have "\<forall>k \<in> set (rev [e + 1..b]). \<not> P k" using assms(4) by auto
  ultimately show ?thesis using assms(3) by (simp add: find_append_None)
qed

lemma find_rev_upto_None:
  assumes "\<And>k. a \<le> k \<Longrightarrow> \<not> P k"
  shows "find P (rev [a..b]) = None"
  using assms by (simp add: find_None_iff)

lemma exponent_eqI:
  assumes "- 1022 \<le> e" and "e \<le> 1023" and "2 powi e \<le> \<bar>x\<bar>" and "\<bar>x\<bar> < 2 powi (e + 1)"
  shows "exponent x = e"
proof -
  have "\<not> 2 powi k \<le> \<bar>x\<bar>" if "e < k" for k
  proof -
    from that have "(2::real) powi (e + 1) \<le> 2 powi k"
      by (intro power_int_increasing) auto
    with assms(4) show ?thesis by linarith
  qed
  with assms(1-3) have "find (\<lambda>e. 2 powi e \<le> \<bar>x\<bar>) (rev [- 1022..1023]) = Some e"
    by (intro find_rev_upto)
  then show ?thesis unfolding exponent_def by (simp only: option.case)
qed

lemma exponent_subnormal:
  assumes "\<bar>x\<bar> < 2 powi (- 1022)"
  shows "exponent x = - 1022"
proof -
  have "\<not> 2 powi k \<le> \<bar>x\<bar>" if "- 1022 \<le> k" for k
  proof -
    from that have "(2::real) powi (- 1022) \<le> 2 powi k"
      by (intro power_int_increasing) auto
    with assms show ?thesis by linarith
  qed
  then have "find (\<lambda>e. 2 powi e \<le> \<bar>x\<bar>) (rev [- 1022..1023]) = None"
    by (intro find_rev_upto_None)
  then show ?thesis unfolding exponent_def by (simp only: option.case)
qed

lemma round_f64_eqI:
  assumes "exponent x = e" and "rne (x / 2 powi (e - 52)) = n"
    and "\<bar>of_int n * 2 powi (e - 52)\<bar> < (2::real) ^ 1024"
  shows "round_f64 x = Finite (of_int n * 2 powi (e - 52))"
  using assms by (simp add: round_f64_def ulp_def Let_def abs_less_iff)

lemma round_f64_at:
  assumes "- 1022 \<le> e" and "e \<le> 1023" and "2 powi e \<le> \<bar>x\<bar>" and "\<bar>x\<bar> < 2 powi (e + 1)"
    and "rne (x / 2 powi (e - 52)) = n"
    and "\<bar>of_int n * 2 powi (e - 52)\<bar> < (2::real) ^ 1024"
  shows "round_f64 x = Finite (of_int n * 2 powi (e - 52))"
  using exponent_eqI[OF assms(1-4)] assms(5,6) by (rule round_f64_eqI)

lemma round_f64_0: "round_f64 0 = Finite 0"
  by (simp add: round_f64_def Let_def rne_def)

lemma round_f64_1: "round_f64 1 = Finite 1"
  using round_f64_at[of 0 1 "2 ^ 52"]
  by (simp add: power_int_minus rne_of_int[of "2 ^ 52", simplified])

lemma round_f64_quarter: "round_f64 (1 / 4) = Finite (1 / 4)"
  using round_f64_at[of "- 2" "1 / 4" "2 ^ 52"]
  by (simp add: power_int_minus rne_of_int[of "2 ^ 52", simplified])

lemma round_f64_half: "round_f64 (1 / 2) = Finite (1 / 2)"
  using round_f64_at[of "- 1" "1 / 2" "2 ^ 52"]
  by (simp add: power_int_minus rne_of_int[of "2 ^ 52", simplified])

lemma round_f64_3quarter: "round_f64 (3 / 4) = Finite (3 / 4)"
  using round_f64_at[of "- 1" "3 / 4" "3 * 2 ^ 51"]
  by (simp add: power_int_minus rne_of_int[of "3 * 2 ^ 51", simplified])

lemma round_f64_4: "round_f64 4 = Finite 4"
  using round_f64_at[of 2 4 "2 ^ 52"]
  by (simp add: power_int_minus rne_of_int[of "2 ^ 52", simplified])

lemma arange_quarters:
  "arange 0 1 (1 / 4) = Inr [Finite 0, Finite (1 / 4), Finite (1 / 2), Finite (3 / 4)]"
  by (simp add: arange_def arange_fill_def fadd_def fsub_def fmul_def round_f64_0 round_f64_1
      round_f64_quarter round_f64_half round_f64_3quarter round_f64_4 upt_rec)


lemma length_arange_fill: "length (arange_fill start next len) = len"
  by (simp add: arange_fill_def Let_def)

lemma nth_arange_fill:
  assumes "i < len"
  shows "arange_fill start next len ! i =
           (if i = 0 then start else if i = 1 then next
            else fadd start (fmul (Finite (real i)) (fsub next start)))"
proof -
  consider "i = 0" | "i = 1" | "2 \<le> i" by linarith
  then show ?thesis
  proof cases
    case 3
    then obtain j where j: "i = Suc (Suc j)" by (metis Suc_le_D numeral_2_eq_2 Suc_le_mono)
    with assms have "j < len - 2" by simp
    with j assms show ?thesis
      by (simp add: arange_fill_def Let_def)
  qed (use assms in \<open>simp_all add: arange_fill_def Let_def\<close>)
qed

lemma exponent_cases: "exponent x = - 1022 \<or> 2 powi exponent x \<le> \<bar>x\<bar>"
proof (cases "find (\<lambda>e. 2 powi e \<le> \<bar>x\<bar>) (rev [- 1022..1023])")
  case None
  then have "exponent x = - 1022" unfolding exponent_def by (simp only: option.case)
  then show ?thesis ..
next
  case (Some e)
  then have "2 powi e \<le> \<bar>x\<bar>" unfolding find_Some_iff by blast
  moreover from Some have "exponent x = e" unfolding exponent_def by (simp only: option.case)
  ultimately show ?thesis by simp
qed

lemma rne_zero_bound:
  assumes "rne y = 0"
  shows "\<bar>y\<bar> \<le> 1 / 2"
proof -
  let ?n = "\<lfloor>y\<rfloor>"
  from assms have "?n = 0 \<and> y - of_int ?n \<le> 1 / 2 \<or> ?n = - 1 \<and> 1 / 2 \<le> y - of_int ?n"
    by (auto simp: rne_def Let_def split: if_splits)
  then show ?thesis by (elim disjE conjE; linarith)
qed

lemma round_f64_zero_bound:
  assumes "round_f64 x = Finite 0"
  shows "\<bar>x\<bar> \<le> 2 powi (- 1075)"
proof -
  have up: "0 < ulp x" by (simp add: ulp_def)
  from assms have "of_int (rne (x / ulp x)) * ulp x = 0"
    by (simp add: round_f64_def Let_def split: if_splits)
  with up have "rne (x / ulp x) = 0" by simp
  then have "\<bar>x / ulp x\<bar> \<le> 1 / 2" by (rule rne_zero_bound)
  with up have b: "\<bar>x\<bar> \<le> ulp x / 2" by (simp add: field_simps)
  from exponent_cases[of x] show ?thesis
  proof
    assume "exponent x = - 1022"
    then have "ulp x = 2 powi (- 1074)" by (simp add: ulp_def)
    moreover have "(2::real) powi (- 1074) / 2 = 2 powi (- 1075)"
      by (simp add: power_int_minus field_simps)
    ultimately show ?thesis using b by simp
  next
    assume "2 powi exponent x \<le> \<bar>x\<bar>"
    moreover have "ulp x = 2 powi exponent x / 2 ^ 52"
      by (simp add: ulp_def power_int_diff)
    ultimately have "ulp x * 2 ^ 52 \<le> \<bar>x\<bar>" by simp
    with b up have "ulp x * 2 ^ 52 \<le> ulp x / 2" by linarith
    with up have False by (simp add: field_simps)
    then show ?thesis ..
  qed
qed

lemma arange_length:
  assumes "step \<noteq> 0" and "arange start stop step = Inr ts"
  shows "\<exists>\<delta> q. round_f64 (stop - start) = Finite \<delta> \<and> round_f64 (\<delta> / step) = Finite q \<and>
           length ts = nat \<lceil>if q = 0 then \<delta> / step else q\<rceil> \<and>
           ts = arange_fill (Finite start) (round_f64 (start + step)) (length ts)"
proof -
  from assms obtain \<delta> q where d: "round_f64 (stop - start) = Finite \<delta>"
    and q: "round_f64 (\<delta> / step) = Finite q"
    by (auto simp: arange_def split: float64.splits)
  define len where "len = (if q = 0 \<and> \<delta> \<noteq> 0 then (if \<delta> / step < 0 then 0 else 1) else \<lceil>q\<rceil>)"
  from assms d q have ts: "ts = arange_fill (Finite start) (round_f64 (start + step)) (nat len)"
    by (auto simp: arange_def Let_def len_def split: if_splits)
  have "nat len = nat \<lceil>if q = 0 then \<delta> / step else q\<rceil>"
  proof (cases "q = 0 \<and> \<delta> \<noteq> 0")
    case True
    with q have "\<bar>\<delta> / step\<bar> \<le> 2 powi (- 1075)" by (intro round_f64_zero_bound) simp
    moreover have "(2::real) powi (- 1075) \<le> 1"
      by (simp add: power_int_minus inverse_le_1_iff)
    ultimately have le: "\<bar>\<delta> / step\<bar> \<le> 1" by linarith
    show ?thesis
    proof (cases "\<delta> / step < 0")
      case neg: True
      then have "\<lceil>\<delta> / step\<rceil> \<le> 0" by (simp add: ceiling_le_iff)
      with True neg show ?thesis by (simp add: len_def)
    next
      case False
      with True assms(1) have pos: "0 < \<delta> / step" by (simp add: less_le)
      from le have "\<delta> / step \<le> 1" by linarith
      with pos have "\<lceil>\<delta> / step\<rceil> = 1" by (intro ceiling_unique) simp_all
      with True False show ?thesis by (simp add: len_def)
    qed
  next
    case False
    then show ?thesis by (auto simp: len_def)
  qed
  with d q ts show ?thesis by (auto simp: length_arange_fill)
qed


lemma round_f64_3: "round_f64 3 = Finite 3"
  using round_f64_at[of 1 3 "3 * 2 ^ 51"]
  by (simp add: power_int_minus rne_of_int[of "3 * 2 ^ 51", simplified])

lemma round_f64_06: "round_f64 (6 / 10) = Finite (5404319552844595 / 9007199254740992)"
  using round_f64_at[of "- 1" "6 / 10" 5404319552844595]
    rne_near[of 5404319552844595 "27021597764222976 / 5"]
  by (simp add: power_int_minus)

lemma round_f64_f06:
  "round_f64 (5404319552844595 / 9007199254740992) = Finite (5404319552844595 / 9007199254740992)"
  using round_f64_at[of "- 1" "5404319552844595 / 9007199254740992" 5404319552844595]
  by (simp add: power_int_minus rne_of_int[of 5404319552844595, simplified])

lemma round_f64_2f06:
  "round_f64 (5404319552844595 / 4503599627370496) = Finite (5404319552844595 / 4503599627370496)"
  using round_f64_at[of 0 "5404319552844595 / 4503599627370496" 5404319552844595]
  by (simp add: power_int_minus rne_of_int[of 5404319552844595, simplified])

lemma round_f64_3f06:
  "round_f64 (16212958658533785 / 9007199254740992) = Finite (2026619832316723 / 1125899906842624)"
  using round_f64_at[of 0 "16212958658533785 / 9007199254740992" 8106479329266892]
    rne_tie_down[of "16212958658533785 / 2" 8106479329266892]
  by (simp add: power_int_minus)

lemma round_f64_3f06':
  "round_f64 (2026619832316723 / 1125899906842624) = Finite (2026619832316723 / 1125899906842624)"
  using round_f64_at[of 0 "2026619832316723 / 1125899906842624" 8106479329266892]
  by (simp add: power_int_minus rne_of_int[of 8106479329266892, simplified])

lemma round_f64_4f06:
  "round_f64 (5404319552844595 / 2251799813685248) = Finite (5404319552844595 / 2251799813685248)"
  using round_f64_at[of 1 "5404319552844595 / 2251799813685248" 5404319552844595]
  by (simp add: power_int_minus rne_of_int[of 5404319552844595, simplified])

lemma round_f64_3_by_f06: "round_f64 (27021597764222976 / 5404319552844595) = Finite 5"
  using round_f64_at[of 2 "27021597764222976 / 5404319552844595" "5 * 2 ^ 50"]
    rne_near[of "5 * 2 ^ 50" "27021597764222976 / 5404319552844595 * 2 ^ 50"]
  by (simp add: power_int_minus)

lemma arange_06:
  "arange 0 3 (5404319552844595 / 9007199254740992) =
     Inr [Finite 0, Finite (5404319552844595 / 9007199254740992),
          Finite (5404319552844595 / 4503599627370496),
          Finite (2026619832316723 / 1125899906842624),
          Finite (5404319552844595 / 2251799813685248)]"
  by (simp add: arange_def arange_fill_def fadd_def fsub_def fmul_def round_f64_3 round_f64_f06
      round_f64_2f06 round_f64_3f06 round_f64_3f06' round_f64_4f06 round_f64_3_by_f06 upt_rec)


lemma round_f64_0001:
  "round_f64 (1 / 1000) = Finite (1152921504606847 / 1152921504606846976)"
  using round_f64_at[of "- 10" "1 / 1000" 4611686018427388]
    rne_near[of 4611686018427388 "576460752303423488 / 125"]
  by (simp add: power_int_minus)

lemma f64_0001: "f64 (1 / 1000) = 1152921504606847 / 1152921504606846976"
  by (simp add: f64_def round_f64_0001)

lemma round_f64_10: "round_f64 10 = Finite 10"
  using round_f64_at[of 3 10 "5 * 2 ^ 50"]
  by (simp add: power_int_minus rne_of_int[of "5 * 2 ^ 50", simplified])

lemma round_f64_10_by_f0001:
  "round_f64 (11529215046068469760 / 1152921504606847) = Finite 10000"
  using round_f64_at[of 13 "11529215046068469760 / 1152921504606847" "10000 * 2 ^ 39"]
    rne_near[of "10000 * 2 ^ 39" "11529215046068469760 / 1152921504606847 * 2 ^ 39"]
  by (simp add: power_int_minus)

lemma notebook_grid:
  "\<exists>ts. arange 0 10 (f64 (1 / 1000)) = Inr ts \<and> length ts = 10000"
  by (simp add: arange_def f64_0001 round_f64_10 round_f64_10_by_f0001 length_arange_fill)

section \<open>The upright position\<close>

text \<open>
  The number \<open>np_pi\<close> is below pi: the cosine of its half is positive, by the Taylor
  polynomial of the cosine with its remainder, evaluated at that rational number.  So
  the sine of \<open>np_pi\<close> is positive, where the sine of pi is zero.
\<close>

lemma cos_lower:
  fixes y :: real
  assumes "0 < y"
  shows "(\<Sum>m<24. cos_coeff m * y ^ m) - y ^ 24 / fact 24 \<le> cos y"
proof -
  from Maclaurin_cos_expansion2[OF assms, of 24] obtain t where
    c: "cos y = (\<Sum>m<24. cos_coeff m * y ^ m) + (cos (t + 1 / 2 * real 24 * pi) / fact 24) * y ^ 24"
    by auto
  have "- 1 \<le> cos (t + 1 / 2 * real 24 * pi)" by simp
  then have "- 1 / fact 24 * y ^ 24 \<le> cos (t + 1 / 2 * real 24 * pi) / fact 24 * y ^ 24"
    using assms by (intro mult_right_mono divide_right_mono) simp_all
  with c show ?thesis by simp
qed

lemma cos_poly:
  fixes y :: real
  shows "(\<Sum>m<24. cos_coeff m * y ^ m) =
     1 - y^2 / fact 2 + y^4 / fact 4 - y^6 / fact 6 + y^8 / fact 8 - y^10 / fact 10
     + y^12 / fact 12 - y^14 / fact 14 + y^16 / fact 16 - y^18 / fact 18 + y^20 / fact 20
     - y^22 / fact 22"
  by (simp add: lessThan_nat_numeral cos_coeff_def)

lemma cos_poly_nested:
  fixes y z :: real
  assumes "z = y\<^sup>2"
  shows "1 - y^2 / fact 2 + y^4 / fact 4 - y^6 / fact 6 + y^8 / fact 8 - y^10 / fact 10
     + y^12 / fact 12 - y^14 / fact 14 + y^16 / fact 16 - y^18 / fact 18 + y^20 / fact 20
     - y^22 / fact 22 - y^24 / fact 24 =
     1 - z / 2 * (1 - z / 12 * (1 - z / 30 * (1 - z / 56 * (1 - z / 90 * (1 - z / 132 *
       (1 - z / 182 * (1 - z / 240 * (1 - z / 306 * (1 - z / 380 * (1 - z / 462 *
       (1 + z / 552)))))))))))"
proof -
  have p: "y ^ 4 = z ^ 2" "y ^ 6 = z ^ 3" "y ^ 8 = z ^ 4" "y ^ 10 = z ^ 5" "y ^ 12 = z ^ 6"
    "y ^ 14 = z ^ 7" "y ^ 16 = z ^ 8" "y ^ 18 = z ^ 9" "y ^ 20 = z ^ 10" "y ^ 22 = z ^ 11"
    "y ^ 24 = z ^ 12"
    unfolding assms by (simp_all flip: power_mult)
  show ?thesis unfolding p assms[symmetric]
    by (simp add: fact_numeral algebra_simps power_numeral_reduce)
qed

lemma cos_poly_pos:
  fixes z :: real
  assumes "z = 781950621441006189802102638025 / 316912650057057350374175801344"
  shows "0 < 1 - z / 2 * (1 - z / 12 * (1 - z / 30 * (1 - z / 56 * (1 - z / 90 * (1 - z / 132 *
       (1 - z / 182 * (1 - z / 240 * (1 - z / 306 * (1 - z / 380 * (1 - z / 462 *
       (1 + z / 552)))))))))))"
  unfolding assms by simp

lemma cos_half_np_pi_pos: "0 < cos (np_pi / 2)"
proof -
  define y :: real where "y = np_pi / 2"
  define z where "z = y\<^sup>2"
  have y: "y = 884279719003555 / 562949953421312" by (simp add: y_def np_pi_def)
  have z: "z = 781950621441006189802102638025 / 316912650057057350374175801344"
    unfolding z_def y by (simp add: power_divide)
  from y have "0 < y" by simp
  from cos_lower[OF this] have "(\<Sum>m<24. cos_coeff m * y ^ m) - y ^ 24 / fact 24 \<le> cos y" .
  also have "(\<Sum>m<24. cos_coeff m * y ^ m) - y ^ 24 / fact 24 =
     1 - z / 2 * (1 - z / 12 * (1 - z / 30 * (1 - z / 56 * (1 - z / 90 * (1 - z / 132 *
       (1 - z / 182 * (1 - z / 240 * (1 - z / 306 * (1 - z / 380 * (1 - z / 462 *
       (1 + z / 552)))))))))))"
    unfolding cos_poly by (rule cos_poly_nested[OF z_def])
  finally show ?thesis using cos_poly_pos[OF z] unfolding y_def by linarith
qed

lemma np_pi_less_pi: "np_pi < pi"
proof -
  have "np_pi / 2 < pi / 2"
  proof (rule ccontr)
    assume "\<not> np_pi / 2 < pi / 2"
    then have "pi / 2 \<le> np_pi / 2" by simp
    moreover have "np_pi / 2 \<le> pi" using pi_ge_two by (simp add: np_pi_def)
    moreover have "0 \<le> pi / 2" by simp
    ultimately have "cos (np_pi / 2) \<le> cos (pi / 2)" by (intro cos_monotone_0_pi_le)
    with cos_half_np_pi_pos show False by simp
  qed
  then show ?thesis by simp
qed

lemma sin_np_pi_pos: "0 < sin np_pi"
  using np_pi_less_pi by (intro sin_gt_zero) (simp_all add: np_pi_def)

lemma round_f64_np_pi: "round_f64 np_pi = Finite np_pi"
  unfolding np_pi_def
  using round_f64_at[of 1 "884279719003555 / 281474976710656" 7074237752028440]
  by (simp add: power_int_minus rne_of_int[of 7074237752028440, simplified])

lemma rates_at_rest:
  "get_PendulumCartRates [x1, 0, x2, 0] t control_no 1 1 1 (- 10) =
     Inr [0, 10 * sin x2 * cos x2 / (1 + (sin x2)\<^sup>2), 0, - 20 * sin x2 / (1 + (sin x2)\<^sup>2)]"
  unfolding control_no_const get_PendulumCartRates_closed by simp

lemma rates_at_rest_zero:
  "(get_PendulumCartRates [x1, 0, x2, 0] t control_no 1 1 1 (- 10) = Inr [0, 0, 0, 0])
     = (sin x2 = 0)"
proof -
  have "1 + (sin x2)\<^sup>2 \<noteq> 0"
    by (metis add_pos_nonneg less_numeral_extra(1) less_numeral_extra(3) zero_le_power2)
  then show ?thesis unfolding rates_at_rest by auto
qed

lemma rest_trajectory:
  "ode_solution (\<lambda>X t. get_PendulumCartRates X t control_no 1 1 1 (- 10)) (\<lambda>s. [x1, 0, x2, 0]) t
     = (sin x2 = 0)"
proof
  assume "ode_solution (\<lambda>X t. get_PendulumCartRates X t control_no 1 1 1 (- 10))
            (\<lambda>s. [x1, 0, x2, 0]) t"
  then obtain r0 r1 r2 r3
    where r: "get_PendulumCartRates [x1, 0, x2, 0] t control_no 1 1 1 (- 10) = Inr [r0, r1, r2, r3]"
      and d: "((\<lambda>s. 0 :: real) has_real_derivative r3) (at t)"
    by (rule ode_solution4_D)
  from d have "r3 = 0" by (rule DERIV_unique) simp
  moreover have "1 + (sin x2)\<^sup>2 \<noteq> 0"
    by (metis add_pos_nonneg less_numeral_extra(1) less_numeral_extra(3) zero_le_power2)
  ultimately show "sin x2 = 0" using r unfolding rates_at_rest by simp
next
  assume "sin x2 = 0"
  then have "get_PendulumCartRates [x1, 0, x2, 0] t control_no 1 1 1 (- 10) = Inr [0, 0, 0, 0]"
    by (simp add: rates_at_rest_zero)
  then show "ode_solution (\<lambda>X t. get_PendulumCartRates X t control_no 1 1 1 (- 10))
            (\<lambda>s. [x1, 0, x2, 0]) t"
    by (rule ode_solution4_I) simp_all
qed

section \<open>The claims\<close>

text \<open>
  C1 (as the code has it).  For the unforced system (\<open>control_no\<close>) with
  \<open>m1 = m2 = l = 1\<close>, \<open>g = -10\<close>, the dynamics function returns at a state at rest
  \<open>(x1, 0, x2, 0)\<close> the accelerations \<open>10 sin x2 cos x2 / (1 + sin\<^sup>2 x2)\<close> and
  \<open>- 20 sin x2 / (1 + sin\<^sup>2 x2)\<close>: the zero vector exactly when \<open>sin x2 = 0\<close>, and exactly
  then the trajectory that stays at that state follows the dynamics.  That is so at the
  angle pi.  The angle the program can pass is the \<^verbatim>\<open>float64\<close> number \<open>np_pi\<close>, which is
  below pi and has a positive sine.
\<close>

theorem C1_fixed_points_at_rest:
  "get_PendulumCartRates [x1, 0, x2, 0] t control_no 1 1 1 (- 10) =
     Inr [0, 10 * sin x2 * cos x2 / (1 + (sin x2)\<^sup>2), 0, - 20 * sin x2 / (1 + (sin x2)\<^sup>2)] \<and>
   (get_PendulumCartRates [x1, 0, x2, 0] t control_no 1 1 1 (- 10) = Inr [0, 0, 0, 0])
     = (sin x2 = 0) \<and>
   ode_solution (\<lambda>X t. get_PendulumCartRates X t control_no 1 1 1 (- 10)) (\<lambda>s. [x1, 0, x2, 0]) t
     = (sin x2 = 0) \<and>
   get_PendulumCartRates [0, 0, pi, 0] t control_no 1 1 1 (- 10) = Inr [0, 0, 0, 0] \<and>
   ode_solution (\<lambda>X t. get_PendulumCartRates X t control_no 1 1 1 (- 10)) (\<lambda>s. [0, 0, pi, 0]) t \<and>
   round_f64 np_pi = Finite np_pi \<and> np_pi < pi \<and> 0 < sin np_pi"
  using rates_at_rest[of x1 x2 t] rates_at_rest_zero[of x1 x2 t] rest_trajectory[of x1 x2 t]
    rates_at_rest_zero[of 0 pi t] rest_trajectory[of 0 pi t] round_f64_np_pi np_pi_less_pi
    sin_np_pi_pos
  by simp

theorem C1_witness:
  "get_PendulumCartRates [0, 0, pi, 0] 0 control_no 1 1 1 (- 10) = Inr [0, 0, 0, 0] \<and>
   ((\<lambda>s. [0, 0, pi, 0 :: real] ! 2) has_real_derivative [0, 0, 0, 0] ! 2) (at 0)"
  using C1_fixed_points_at_rest[of 0 pi 0] by (simp add: ode_solution_def)

text \<open>
  The claim as stated fails at the upright state as the program has it,
  \<open>(0, 0, np_pi, 0)\<close>: the dynamics function does not return the zero vector there, and
  the trajectory that stays at that state does not follow the dynamics.
\<close>

theorem C1_counterexample:
  "get_PendulumCartRates [0, 0, np_pi, 0] 0 control_no 1 1 1 (- 10) \<noteq> Inr [0, 0, 0, 0] \<and>
   \<not> ode_solution (\<lambda>X t. get_PendulumCartRates X t control_no 1 1 1 (- 10))
       (\<lambda>s. [0, 0, np_pi, 0]) 0"
  using sin_np_pi_pos by (simp add: rates_at_rest_zero rest_trajectory)




text \<open>
  C5 (as the code has it).  The control law is called inside the dynamics function, on
  the state at which the integrator evaluates the rates: the rates at a state \<open>X\<close> are
  the rates with the control held at the value the law has at \<open>X\<close> itself.  The
  integrator is handed that function, so the control is computed anew at every
  evaluation the integrator makes and is not held over a step.
\<close>

theorem C5_control_sampled_at_each_evaluation:
  "get_PendulumCartRates X t uf m1 m2 l g = zero_order_hold_rates X X t uf m1 m2 l g \<and>
   run_odeint odeint uf x0 t0 tn dt m1 m2 l g =
     (case arange t0 tn dt of
        Inl e \<Rightarrow> Inl e
      | Inr ts \<Rightarrow>
          (case odeint (\<lambda>X t. zero_order_hold_rates X X t uf m1 m2 l g) x0 ts of
             Inl e \<Rightarrow> Inl e
           | Inr res \<Rightarrow> Inr (ts, res)))"
proof -
  have eq: "get_PendulumCartRates X t uf m1 m2 l g = zero_order_hold_rates X X t uf m1 m2 l g"
    for X t
    by (simp add: zero_order_hold_rates_def get_PendulumCartRates_def control_const_def
        split: sum.splits)
  show ?thesis unfolding run_odeint_def eq[symmetric] by simp
qed

text \<open>
  The claim as stated fails: with the feedback gain \<open>K = [[0, 1, 0, 0]]\<close> the rates at
  \<open>[0, 1, 0, 0]\<close> are \<open>[1, -1, 0, 1]\<close>; at the midpoint stage of a step of size 1 from
  there, \<open>[1/2, 1/2, 0, 1/2]\<close>, the dynamics function uses the control \<open>-1/2\<close> of the
  stage state, where a zero-order hold would use the control \<open>-1\<close> of the state at the
  start of the step.
\<close>

theorem C5_counterexample:
  "get_PendulumCartRates [0, 1, 0, 0] 0 (control_law [[0, 1, 0, 0]]) 1 1 1 (- 10)
     = Inr [1, - 1, 0, 1] \<and>
   get_PendulumCartRates [1 / 2, 1 / 2, 0, 1 / 2] 0 (control_law [[0, 1, 0, 0]]) 1 1 1 (- 10)
     = Inr [1 / 2, - (1 / 2), 1 / 2, 1 / 2] \<and>
   zero_order_hold_rates [0, 1, 0, 0] [1 / 2, 1 / 2, 0, 1 / 2] 0 (control_law [[0, 1, 0, 0]])
       1 1 1 (- 10)
     = Inr [1 / 2, - 1, 1 / 2, 1] \<and>
   get_PendulumCartRates [1 / 2, 1 / 2, 0, 1 / 2] 0 (control_law [[0, 1, 0, 0]]) 1 1 1 (- 10)
     \<noteq> zero_order_hold_rates [0, 1, 0, 0] [1 / 2, 1 / 2, 0, 1 / 2] 0
          (control_law [[0, 1, 0, 0]]) 1 1 1 (- 10)"
  by (simp add: get_PendulumCartRates_def zero_order_hold_rates_def control_const_def
      control_law_def vsub_def matvec_def dot_def xsp_def
      y1dd_function_closed y2dd_function_closed)

text \<open>
  C6 (as the code has it).  A simulation cell makes no check of its own on the samples:
  a run returns exactly the time grid and the samples the integrator returned for the
  whole grid, whatever they are, and the only errors of a run are those that the
  construction of the grid or the integrator raise.
\<close>

theorem C6_run_returns_integrator_result:
  "(run_odeint odeint uf x0 t0 tn dt m1 m2 l g = Inr (ts, res)) =
     (arange t0 tn dt = Inr ts \<and>
      odeint (\<lambda>X t. get_PendulumCartRates X t uf m1 m2 l g) x0 ts = Inr res) \<and>
   (run_odeint odeint uf x0 t0 tn dt m1 m2 l g = Inl e) =
     (arange t0 tn dt = Inl e \<or>
      (\<exists>ts'. arange t0 tn dt = Inr ts' \<and>
         odeint (\<lambda>X t. get_PendulumCartRates X t uf m1 m2 l g) x0 ts' = Inl e))"
  by (auto simp: run_odeint_def split: sum.splits)

text \<open>
  The claim as stated fails: when the integrator returns samples that are not finite
  after the first one, the run over the grid \<open>(0, 1, 1/4)\<close> returns normally, with all
  four samples, the non-finite ones included; no error is raised and nothing is cut off.
\<close>

theorem C6_counterexample:
  "run_odeint (\<lambda>f y0 ts'. Inr (map Finite y0 # map (\<lambda>t. map (\<lambda>y. NaN) y0) (tl ts')))
       control_no [0, 0, pi / 2, 0] 0 1 (1 / 4) 1 1 1 (- 10)
     = Inr ([Finite 0, Finite (1 / 4), Finite (1 / 2), Finite (3 / 4)],
            [[Finite 0, Finite 0, Finite (pi / 2), Finite 0],
             [NaN, NaN, NaN, NaN], [NaN, NaN, NaN, NaN], [NaN, NaN, NaN, NaN]]) \<and>
   \<not> list_all (list_all isfinite)
       [[Finite 0, Finite 0, Finite (pi / 2), Finite 0],
        [NaN, NaN, NaN, NaN], [NaN, NaN, NaN, NaN], [NaN, NaN, NaN, NaN]]"
  by (simp add: run_odeint_def arange_quarters)

text \<open>
  C7 (as the code has it).  A run over the time grid \<open>(t0, tn, dt)\<close> with \<open>dt > 0\<close> that
  returns has as many sample times as the ceiling of the quotient \<open>(tn - t0) / dt\<close>
  computed in \<^verbatim>\<open>float64\<close>: the difference is rounded, then the quotient (and a quotient
  that is rounded to zero counts with its exact value).  The sample times are \<open>t0\<close>,
  \<open>t0 + dt\<close> and \<open>t0 + i * delta\<close>, with \<open>delta\<close> the difference of the first two, every
  operation rounded; they are \<open>dt\<close> apart up to that rounding only.  The run has as many
  states as sample times, given that the integrator returns one state for each time it
  is asked for (as \<^verbatim>\<open>odeint\<close> does).  For the grid of the notebook, \<open>(0, 10, 0.001)\<close>,
  that number is 10000 (\<open>notebook_grid\<close>).
\<close>

theorem C7_sample_count_and_times:
  assumes "0 < dt"
    and "\<And>f y0 ts' res'. odeint f y0 ts' = Inr res' \<Longrightarrow> length res' = length ts'"
    and "run_odeint odeint uf x0 t0 tn dt m1 m2 l g = Inr (ts, res)"
  shows "\<exists>\<delta> q. round_f64 (tn - t0) = Finite \<delta> \<and> round_f64 (\<delta> / dt) = Finite q \<and>
           length ts = nat \<lceil>if q = 0 then \<delta> / dt else q\<rceil> \<and> length res = length ts \<and>
           (\<forall>i<length ts. ts ! i =
              (if i = 0 then Finite t0 else if i = 1 then round_f64 (t0 + dt)
               else fadd (Finite t0)
                      (fmul (Finite (real i)) (fsub (round_f64 (t0 + dt)) (Finite t0)))))"
proof -
  from assms(3) have a: "arange t0 tn dt = Inr ts"
    and o: "odeint (\<lambda>X t. get_PendulumCartRates X t uf m1 m2 l g) x0 ts = Inr res"
    by (auto simp: run_odeint_def split: sum.splits)
  from assms(1) have "dt \<noteq> 0" by simp
  from arange_length[OF this a] obtain \<delta> q where d: "round_f64 (tn - t0) = Finite \<delta>"
    and q: "round_f64 (\<delta> / dt) = Finite q"
    and n: "length ts = nat \<lceil>if q = 0 then \<delta> / dt else q\<rceil>"
    and ts: "ts = arange_fill (Finite t0) (round_f64 (t0 + dt)) (length ts)"
    by blast
  have "ts ! i =
          (if i = 0 then Finite t0 else if i = 1 then round_f64 (t0 + dt)
           else fadd (Finite t0)
                  (fmul (Finite (real i)) (fsub (round_f64 (t0 + dt)) (Finite t0))))"
    if "i < length ts" for i
    using nth_arange_fill[OF that, of "Finite t0" "round_f64 (t0 + dt)"] ts by simp
  moreover from assms(2)[OF o] have "length res = length ts" .
  ultimately show ?thesis using d q n by blast
qed

theorem C7_witness:
  "(0::real) < 1 / 4 \<and>
   run_odeint (\<lambda>f y0 ts'. Inr (map (\<lambda>t. y0) ts')) control_no [0, 0, pi, 0] 0 1 (1 / 4) 1 1 1 (- 10)
     = Inr ([Finite 0, Finite (1 / 4), Finite (1 / 2), Finite (3 / 4)],
            [[0, 0, pi, 0], [0, 0, pi, 0], [0, 0, pi, 0], [0, 0, pi, 0]]) \<and>
   (\<exists>\<delta> q. round_f64 (1 - 0) = Finite \<delta> \<and> round_f64 (\<delta> / (1 / 4)) = Finite q \<and>
      length [Finite 0, Finite (1 / 4), Finite (1 / 2), Finite (3 / 4)]
        = nat \<lceil>if q = 0 then \<delta> / (1 / 4) else q\<rceil>)"
proof -
  have r: "run_odeint (\<lambda>f y0 ts'. Inr (map (\<lambda>t. y0) ts')) control_no [0, 0, pi, 0] 0 1 (1 / 4)
             1 1 1 (- 10)
     = Inr ([Finite 0, Finite (1 / 4), Finite (1 / 2), Finite (3 / 4)],
            [[0, 0, pi, 0], [0, 0, pi, 0], [0, 0, pi, 0], [0, 0, pi, 0]])"
    by (simp add: run_odeint_def arange_quarters)
  have c: "length res' = length ts'"
    if "(\<lambda>f y0 ts'. Inr (map (\<lambda>t. y0) ts')) f y0 ts' = (Inr res' :: error + real list list)"
    for f :: "real list \<Rightarrow> real \<Rightarrow> error + real list" and y0 and ts' :: "float64 list" and res'
    using that by auto
  have p: "(0::real) < 1 / 4" by simp
  have "\<exists>\<delta> q. round_f64 (1 - 0) = Finite \<delta> \<and> round_f64 (\<delta> / (1 / 4)) = Finite q \<and>
      length [Finite 0, Finite (1 / 4), Finite (1 / 2), Finite (3 / 4)]
        = nat \<lceil>if q = 0 then \<delta> / (1 / 4) else q\<rceil>"
    using C7_sample_count_and_times[OF p _ r] c by blast
  with r p show ?thesis by blast
qed

text \<open>
  The claim as stated fails: the run over the grid \<open>(0, 3, 0.6)\<close> has five samples,
  where the ceiling of the quotient of the two numbers is six (the \<^verbatim>\<open>float64\<close> that
  \<^verbatim>\<open>0.6\<close> denotes is below \<open>6/10\<close>, and the quotient is rounded to 5), and its fourth
  sample time is not \<open>dt\<close> after the third.
\<close>

theorem C7_counterexample:
  "round_f64 (6 / 10) = Finite (5404319552844595 / 9007199254740992) \<and>
   run_odeint (\<lambda>f y0 ts'. Inr (map (\<lambda>t. y0) ts')) control_no [0, 0, pi, 0]
       0 3 (5404319552844595 / 9007199254740992) 1 1 1 (- 10)
     = Inr ([Finite 0, Finite (5404319552844595 / 9007199254740992),
             Finite (5404319552844595 / 4503599627370496),
             Finite (2026619832316723 / 1125899906842624),
             Finite (5404319552844595 / 2251799813685248)],
            [[0, 0, pi, 0], [0, 0, pi, 0], [0, 0, pi, 0], [0, 0, pi, 0], [0, 0, pi, 0]]) \<and>
   nat \<lceil>(3 - 0) / (5404319552844595 / 9007199254740992 :: real)\<rceil> = 6 \<and>
   (2026619832316723 / 1125899906842624 - 5404319552844595 / 4503599627370496 :: real)
     \<noteq> 5404319552844595 / 9007199254740992"
proof -
  have "\<lceil>27021597764222976 / 5404319552844595 :: real\<rceil> = 6"
    by (intro ceiling_unique) simp_all
  with round_f64_06 show ?thesis
    by (simp add: run_odeint_def arange_06)
qed

text \<open>
  C8 (as the code has it).  The momentum state is obtained from the velocity state by
  a map that leaves the positions unchanged and is linear in the velocities, with
  coefficients that depend on the parameters and on the angle.  A trajectory of velocity
  states that follows the Lagrangian dynamics function with the control input \<open>u\<close> is
  mapped to a trajectory of momentum states that follows the Hamiltonian dynamics
  function with the control input \<open>- u\<close>: the two notebooks apply the control force with
  opposite signs, and they agree for \<open>u = 0\<close>.
\<close>

theorem C8_lagrangian_hamiltonian_correspondence:
  assumes "0 < m1" and "0 < m2" and "l \<noteq> 0"
    and "\<And>s. length (X s) = 4"
    and "ode_solution (\<lambda>Y t. get_PendulumCartRates Y t (control_const u) m1 m2 l g) X t"
  shows "ode_solution (\<lambda>Y t. get_PendulumCartRates_Hamiltonian Y t (control_const (- u)) m1 m2 l g)
           (\<lambda>s. to_momentum m1 m2 l (X s)) t \<and>
         to_momentum m1 m2 l [x, b1, y, b2] =
           [x, (m1 + m2) * b1 + m2 * l * cos y * b2, y, m2 * l * cos y * b1 + m2 * l\<^sup>2 * b2] \<and>
         to_momentum m1 m2 l [x, \<alpha> * b1 + \<beta> * c1, y, \<alpha> * b2 + \<beta> * c2] ! 1 =
           \<alpha> * (to_momentum m1 m2 l [x, b1, y, b2] ! 1) + \<beta> * (to_momentum m1 m2 l [x, c1, y, c2] ! 1) \<and>
         to_momentum m1 m2 l [x, \<alpha> * b1 + \<beta> * c1, y, \<alpha> * b2 + \<beta> * c2] ! 3 =
           \<alpha> * (to_momentum m1 m2 l [x, b1, y, b2] ! 3) + \<beta> * (to_momentum m1 m2 l [x, c1, y, c2] ! 3)"
proof -
  define a b c d where comp: "a = (\<lambda>s. X s ! 0)" "b = (\<lambda>s. X s ! 1)"
    "c = (\<lambda>s. X s ! 2)" "d = (\<lambda>s. X s ! 3)"
  have X: "X = (\<lambda>s. [a s, b s, c s, d s])"
    using list4[OF assms(4)] by (simp add: comp fun_eq_iff)
  from assms(5)[unfolded X] obtain r0 r1 r2 r3
    where r: "get_PendulumCartRates [a t, b t, c t, d t] t (control_const u) m1 m2 l g
                = Inr [r0, r1, r2, r3]"
      and der: "(a has_real_derivative r0) (at t)" "(b has_real_derivative r1) (at t)"
        "(c has_real_derivative r2) (at t)" "(d has_real_derivative r3) (at t)"
    by (rule ode_solution4_D)
  have "ode_solution (\<lambda>Y t'. Inr (momentum_rates m1 m2 l [a t, b t, c t, d t] [r0, r1, r2, r3]))
           (\<lambda>s. to_momentum m1 m2 l [a s, b s, c s, d s]) t"
    by (rule momentum_rates_derivative[OF der])
  moreover have "ode_solution (\<lambda>Y t'. Inr (momentum_rates m1 m2 l [a t, b t, c t, d t] [r0, r1, r2, r3]))
           (\<lambda>s. to_momentum m1 m2 l [a s, b s, c s, d s]) t
     = ode_solution (\<lambda>Y t. get_PendulumCartRates_Hamiltonian Y t (control_const (- u)) m1 m2 l g)
           (\<lambda>s. to_momentum m1 m2 l [a s, b s, c s, d s]) t"
    by (rule ode_solution_cong)
       (simp add: hamiltonian_matches_pushforward[OF assms(1-3) r])
  ultimately have "ode_solution
      (\<lambda>Y t. get_PendulumCartRates_Hamiltonian Y t (control_const (- u)) m1 m2 l g)
      (\<lambda>s. to_momentum m1 m2 l (X s)) t"
    unfolding X by simp
  then show ?thesis
    using to_momentum_closed[of m1 m2 l x b1 y b2]
      to_momentum_linear[of m1 m2 l x \<alpha> b1 \<beta> c1 y b2 c2]
    by blast
qed

theorem C8_witness:
  "(0::real) < 1 \<and> (1::real) \<noteq> 0 \<and>
   (\<forall>s::real. length [s\<^sup>2 / 2, s, - (s\<^sup>2 / 2), - s] = 4) \<and>
   ode_solution (\<lambda>Y t. get_PendulumCartRates Y t (control_const 1) 1 1 1 (- 10))
     (\<lambda>s. [s\<^sup>2 / 2, s, - (s\<^sup>2 / 2), - s]) 0 \<and>
   ode_solution (\<lambda>Y t. get_PendulumCartRates_Hamiltonian Y t (control_const (- 1)) 1 1 1 (- 10))
     (\<lambda>s. to_momentum 1 1 1 [s\<^sup>2 / 2, s, - (s\<^sup>2 / 2), - s]) 0"
proof -
  have p: "(0::real) < 1" and n: "(1::real) \<noteq> 0" by simp_all
  have len: "length [s\<^sup>2 / 2, s, - (s\<^sup>2 / 2), - s] = 4" for s :: real by simp
  note c = C8_lagrangian_hamiltonian_correspondence[OF p p n len unit_force_trajectory,
      THEN conjunct1]
  show ?thesis
    by (intro conjI allI p n len unit_force_trajectory c)
qed

text \<open>
  The claim as stated fails for a control input that is not zero.  At the origin with
  the force \<open>u = 1\<close> and \<open>m1 = m2 = l = 1\<close>, \<open>g = -10\<close>, the Lagrangian rates are
  \<open>[0, 1, 0, -1]\<close>, so the momentum \<open>p1\<close> grows at the rate 1, while the Hamiltonian
  dynamics function with the same force returns the rate \<open>-1\<close> for it: the image of a
  Lagrangian trajectory does not follow the Hamiltonian dynamics with the same control.
\<close>

theorem C8_counterexample:
  "get_PendulumCartRates [0, 0, 0, 0] 0 (control_const 1) 1 1 1 (- 10) = Inr [0, 1, 0, - 1] \<and>
   to_momentum 1 1 1 [0, 0, 0, 0] = [0, 0, 0, 0] \<and>
   momentum_rates 1 1 1 [0, 0, 0, 0] [0, 1, 0, - 1] = [0, 1, 0, 0] \<and>
   get_PendulumCartRates_Hamiltonian (to_momentum 1 1 1 [0, 0, 0, 0]) 0 (control_const 1)
     1 1 1 (- 10) = Inr [0, - 1, 0, 0] \<and>
   ode_solution (\<lambda>Y t. get_PendulumCartRates Y t (control_const 1) 1 1 1 (- 10))
     (\<lambda>s. [s\<^sup>2 / 2, s, - (s\<^sup>2 / 2), - s]) 0 \<and>
   \<not> ode_solution (\<lambda>Y t. get_PendulumCartRates_Hamiltonian Y t (control_const 1) 1 1 1 (- 10))
     (\<lambda>s. to_momentum 1 1 1 [s\<^sup>2 / 2, s, - (s\<^sup>2 / 2), - s]) 0"
proof -
  have tm: "to_momentum 1 1 1 [0, 0, 0, 0] = [0, 0, 0, 0]"
    by (simp add: to_momentum_closed)
  have ham: "get_PendulumCartRates_Hamiltonian [0, 0, 0, 0] 0 (control_const 1) 1 1 1 (- 10)
      = Inr [0, - 1, 0, 0]"
    by (simp add: get_PendulumCartRates_Hamiltonian_closed)
  have "\<not> ode_solution (\<lambda>Y t. get_PendulumCartRates_Hamiltonian Y t (control_const 1) 1 1 1 (- 10))
     (\<lambda>s. to_momentum 1 1 1 [s\<^sup>2 / 2, s, - (s\<^sup>2 / 2), - s]) 0"
  proof
    assume "ode_solution (\<lambda>Y t. get_PendulumCartRates_Hamiltonian Y t (control_const 1) 1 1 1 (- 10))
     (\<lambda>s. to_momentum 1 1 1 [s\<^sup>2 / 2, s, - (s\<^sup>2 / 2), - s]) 0"
    from ode_solution_rates_unique[OF this unit_force_momentum_trajectory]
    show False by (simp add: tm ham)
  qed
  then show ?thesis
    using unit_force_trajectory
    by (simp add: tm ham get_PendulumCartRates_closed momentum_rates_closed)
qed

text \<open>
  C9.  For every state \<open>(x1, v1, x2, v2)\<close>, control law, time and parameters, the first and
  the third component of the vector that \<open>get_PendulumCartRates\<close> returns are the
  velocities \<open>v1\<close> and \<open>v2\<close> of the state, unchanged.  (The function returns a vector
  whenever the control law returns a force.)
\<close>

theorem C9_position_rates_are_velocities:
  assumes "uf [x1, w1, x2, w2] = Inr u"
  shows "\<exists>a b. get_PendulumCartRates [x1, w1, x2, w2] t uf m1 m2 l g = Inr [w1, a, w2, b]"
  using assms by (simp add: get_PendulumCartRates_def)

theorem C9_witness:
  "control_no [3, 5, 1, 7] = Inr 0 \<and>
   (\<exists>a b. get_PendulumCartRates [3, 5, 1, 7] 0 control_no 1 1 1 (- 10) = Inr [5, a, 7, b])"
  using C9_position_rates_are_velocities[of control_no 3 5 1 7 0 0 1 1 1 "- 10"]
  by (simp add: control_no_def)

text \<open>
  C10.  The rates do not depend on the cart position: two states that differ in \<open>x1\<close>
  only, with the same control value, time and parameters, have the same rate vector (in
  particular the same accelerations).  The matrices of the linearisation do not depend
  on the value of \<open>x1\<close>, which the stationary point leaves open, and the first column of
  \<open>A\<close> is zero.
\<close>

theorem C10_translation_invariance:
  "get_PendulumCartRates [x1, w1, x2, w2] t (control_const u) m1 m2 l g =
     get_PendulumCartRates [x1', w1, x2, w2] t (control_const u) m1 m2 l g \<and>
   map (\<lambda>row. eval (row ! 0) env) A_sp = [0, 0, 0, 0] \<and>
   map (map (\<lambda>e. eval e (env(Sx1 := a)))) A_sp = map (map (\<lambda>e. eval e env)) A_sp \<and>
   map (map (\<lambda>e. eval e (env(Sx1 := a)))) B_sp = map (map (\<lambda>e. eval e env)) B_sp"
proof -
  have "map (\<lambda>row. eval (row ! 0) env) A_sp = map (\<lambda>row. row ! 0) (map (map (\<lambda>e. eval e env)) A_sp)"
    by (simp add: A_sp_def Xs_def)
  then have "map (\<lambda>row. eval (row ! 0) env) A_sp = [0, 0, 0, 0]"
    unfolding A_sp_value by simp
  then show ?thesis
    by (simp add: get_PendulumCartRates_closed A_sp_value B_sp_value)
qed

end
